theory Spec2Isabelle
  imports Complex_Main "HOL-Library.Log_Nat"
begin

section \<open>Data model\<close>

text \<open>
  A check result is a Python dict decoded from the JSON answer of the language model.
  Every key may be absent, so each field is an option: \<open>None\<close> is the absent key, and
  reading it raises \<open>KeyError\<close>. The value types are those the prompt of
  \<^verbatim>\<open>analyze_resume\<close> asks for: strings, a boolean and an integer severity.
\<close>

datatype error = KeyError string

record check =
  check_name :: "string option"
  passed :: "bool option"
  explanation :: "string option"
  severity :: "int option"
  category :: "string option"

text \<open>\<^verbatim>\<open>d[k]\<close>: the value under the key, or \<open>KeyError\<close>.\<close>

definition getitem :: "string \<Rightarrow> 'a option \<Rightarrow> error + 'a" where
  "getitem k v = (case v of None \<Rightarrow> Inl (KeyError k) | Some x \<Rightarrow> Inr x)"

section \<open>Normalization (app.py, main, lines 98-103)\<close>

text \<open>
  \<^verbatim>\<open>
  for result in results:
      if not result['passed'] and result['severity'] < 4:
          result['passed'] = True
          result['severity'] = 0
          result['explanation'] = ""
  \<close>
  The \<^verbatim>\<open>and\<close> is short-circuit: the severity is read only when the check failed.
  The loop updates the records in place; the model returns the updated list, and an
  exception ends the loop at the record that raised it.
\<close>

definition normalize_result :: "check \<Rightarrow> error + check" where
  "normalize_result r =
     (case getitem ''passed'' (passed r) of
        Inl e \<Rightarrow> Inl e
      | Inr p \<Rightarrow>
          if p then Inr r
          else (case getitem ''severity'' (severity r) of
                  Inl e \<Rightarrow> Inl e
                | Inr s \<Rightarrow>
                    if s < 4
                    then Inr (r\<lparr>passed := Some True, severity := Some 0,
                                 explanation := Some ''''\<rparr>)
                    else Inr r))"

fun normalize_results :: "check list \<Rightarrow> error + check list" where
  "normalize_results [] = Inr []"
| "normalize_results (r # rs) =
     (case normalize_result r of
        Inl e \<Rightarrow> Inl e
      | Inr r' \<Rightarrow> (case normalize_results rs of Inl e \<Rightarrow> Inl e | Inr rs' \<Rightarrow> Inr (r' # rs')))"

text \<open>The condition under which the loop rewrites a record.\<close>

definition demoted :: "check \<Rightarrow> bool" where
  "demoted r = (\<exists>s. passed r = Some False \<and> severity r = Some s \<and> s < 4)"

text \<open>A record whose reads in the loop all succeed.\<close>

definition readable :: "check \<Rightarrow> bool" where
  "readable r =
     (case passed r of None \<Rightarrow> False | Some p \<Rightarrow> p \<or> severity r \<noteq> None)"

section \<open>Numbers\<close>

text \<open>
  Scores are Python floats, that is binary64 numbers. A float is modelled by the rational
  number it stands for, and every float operation by the exact operation followed by
  the rounding \<open>fl\<close> to the nearest number with a significand of 53 bits, a tie going
  to the even significand. The exponent is not bounded in the model: the numbers of
  this program are sums of severities, lengths of lists and the values computed from
  them, far from the ends of the binary64 range, where Python would give
  \<^verbatim>\<open>OverflowError\<close> or an infinity.
\<close>

definition round_half_even :: "rat \<Rightarrow> int" where
  "round_half_even x =
     (let f = \<lfloor>x\<rfloor>; d = x - of_int f in
      if d < 1 / 2 then f
      else if 1 / 2 < d then f + 1
      else if even f then f else f + 1)"

text \<open>The binary exponent of a positive rational: \<open>2\<^sup>e \<le> x < 2\<^sup>e\<^sup>+\<^sup>1\<close>.\<close>

definition ilog2 :: "rat \<Rightarrow> int" where
  "ilog2 x =
     (case quotient_of x of
        (a, b) \<Rightarrow> let d = bitlen a - bitlen b in if x < 2 powi d then d - 1 else d)"

definition fl :: "rat \<Rightarrow> rat" where
  "fl x =
     (if x = 0 then 0
      else let u = 2 powi (ilog2 \<bar>x\<bar> - 52) in of_int (round_half_even (x / u)) * u)"

text \<open>
  The conversion of an int to a float, the float operations \<^verbatim>\<open>*\<close> and \<^verbatim>\<open>-\<close>, and
  the true division \<^verbatim>\<open>/\<close> of two ints, each correctly rounded.
\<close>

definition float_of_int :: "int \<Rightarrow> rat" where
  "float_of_int n = fl (of_int n)"

definition float_mul :: "rat \<Rightarrow> rat \<Rightarrow> rat" where
  "float_mul x y = fl (x * y)"

definition float_sub :: "rat \<Rightarrow> rat \<Rightarrow> rat" where
  "float_sub x y = fl (x - y)"

definition int_truediv :: "int \<Rightarrow> int \<Rightarrow> rat" where
  "int_truediv m n = fl (of_int m / of_int n)"

text \<open>
  \<^verbatim>\<open>round(x, 1)\<close> of a float: the exact value of \<open>x\<close> is rounded to the nearest
  multiple of one tenth, a tie going to the even multiple, and the float nearest to that
  decimal is returned.
\<close>

definition round1 :: "rat \<Rightarrow> rat" where
  "round1 x = fl (of_int (round_half_even (x * 10)) / 10)"

section \<open>Comprehensions\<close>

text \<open>
  \<^verbatim>\<open>[f(x) for x in xs if p(x)]\<close>, where the condition and the element may raise:
  the records are visited in order, the condition is read first, and the first exception
  ends the comprehension.
\<close>

fun comprehension ::
  "('a \<Rightarrow> error + bool) \<Rightarrow> ('a \<Rightarrow> error + 'b) \<Rightarrow> 'a list \<Rightarrow> error + 'b list" where
  "comprehension p f [] = Inr []"
| "comprehension p f (x # xs) =
     (case p x of
        Inl e \<Rightarrow> Inl e
      | Inr b \<Rightarrow>
          (case (if b then (case f x of Inl e \<Rightarrow> Inl e | Inr y \<Rightarrow> Inr [y]) else Inr []) of
             Inl e \<Rightarrow> Inl e
           | Inr ys \<Rightarrow>
               (case comprehension p f xs of
                  Inl e \<Rightarrow> Inl e
                | Inr zs \<Rightarrow> Inr (ys @ zs))))"

section \<open>Overall score (analysis.py, calculate_overall_score)\<close>

text \<open>
  \<^verbatim>\<open>not check['passed'] and check['severity'] >= 4\<close>, the condition of the
  significant issues, with its short-circuit.
\<close>

definition is_significant :: "check \<Rightarrow> error + bool" where
  "is_significant c =
     (case getitem ''passed'' (passed c) of
        Inl e \<Rightarrow> Inl e
      | Inr p \<Rightarrow>
          if \<not> p
          then (case getitem ''severity'' (severity c) of
                  Inl e \<Rightarrow> Inl e
                | Inr s \<Rightarrow> Inr (4 \<le> s))
          else Inr False)"

text \<open>
  \<^verbatim>\<open>
  def calculate_overall_score(results):
      if not results:
          return 0
      base_score = 100
      significant_issues = [check for check in results
                            if not check['passed'] and check['severity'] >= 4]
      total_severity = sum(check['severity'] for check in significant_issues)
      score = base_score - (total_severity * 0.77)
      score = max(0, min(100, score))
      return round(score, 1)
  \<close>
  The copy in \<^verbatim>\<open>Previous Code Files/c4.py\<close> is the same text with the coefficient
  1.2 in place of 0.77, so the body is written once, over the coefficient. The literal
  \<^verbatim>\<open>0.77\<close> is the float nearest to 77/100, and \<^verbatim>\<open>total_severity * 0.77\<close>
  converts the int and multiplies two floats.
\<close>

definition overall_score_with :: "rat \<Rightarrow> check list \<Rightarrow> error + rat" where
  "overall_score_with K results =
     (if results = [] then Inr 0
      else
        (case comprehension is_significant Inr results of
           Inl e \<Rightarrow> Inl e
         | Inr significant_issues \<Rightarrow>
             (case comprehension (\<lambda>c. Inr True) (\<lambda>c. getitem ''severity'' (severity c))
                     significant_issues of
                Inl e \<Rightarrow> Inl e
              | Inr severities \<Rightarrow>
                  let total_severity = sum_list severities;
                      score = float_sub 100 (float_mul (float_of_int total_severity) K);
                      score = max 0 (min 100 score)
                  in Inr (round1 score))))"

definition calculate_overall_score :: "check list \<Rightarrow> error + rat" where
  "calculate_overall_score = overall_score_with (fl (77 / 100))"

definition calculate_overall_score_c4 :: "check list \<Rightarrow> error + rat" where
  "calculate_overall_score_c4 = overall_score_with (fl (12 / 10))"

section \<open>Category scores (analysis.py, calculate_category_scores)\<close>

text \<open>
  The dict \<^verbatim>\<open>categories\<close> has five keys, in this order, each with an empty list.
  A Python dict keeps its insertion order, so it is an association list.
\<close>

definition categories :: "(string \<times> 'a list) list" where
  "categories = [(''Content'', []), (''Format'', []), (''Consistency'', []),
                 (''Relevance'', []), (''Credibility'', [])]"

text \<open>\<^verbatim>\<open>categories[k].append(c)\<close>, for a key of the dict.\<close>

definition dict_append ::
  "string \<Rightarrow> 'a \<Rightarrow> (string \<times> 'a list) list \<Rightarrow> (string \<times> 'a list) list" where
  "dict_append k c d = map (\<lambda>(k', cs). if k' = k then (k', cs @ [c]) else (k', cs)) d"

text \<open>
  \<^verbatim>\<open>
  is_significant = not check['passed'] and check['severity'] >= 4
  check_result = check.copy()
  if not is_significant and not check['passed']:
      check_result['passed'] = True
  \<close>
  The value of this function is the copy; the input record is not changed.
\<close>

definition copy_for_category :: "check \<Rightarrow> error + check" where
  "copy_for_category c =
     (case is_significant c of
        Inl e \<Rightarrow> Inl e
      | Inr sig \<Rightarrow>
          (case (if \<not> sig
                 then (case getitem ''passed'' (passed c) of
                         Inl e \<Rightarrow> Inl e
                       | Inr p \<Rightarrow> Inr (\<not> p))
                 else Inr False) of
             Inl e \<Rightarrow> Inl e
           | Inr flip \<Rightarrow> Inr (if flip then c\<lparr>passed := Some True\<rparr> else c)))"

text \<open>
  \<^verbatim>\<open>
  if check_result['category'] in categories:
      categories[check_result['category']].append(check_result)
  \<close>
\<close>

definition group_check ::
  "(string \<times> check list) list \<Rightarrow> check \<Rightarrow> error + (string \<times> check list) list" where
  "group_check d c =
     (case copy_for_category c of
        Inl e \<Rightarrow> Inl e
      | Inr check_result \<Rightarrow>
          (case getitem ''category'' (category check_result) of
             Inl e \<Rightarrow> Inl e
           | Inr k \<Rightarrow> Inr (if k \<in> set (map fst d) then dict_append k check_result d else d)))"

fun group_checks ::
  "(string \<times> check list) list \<Rightarrow> check list \<Rightarrow> error + (string \<times> check list) list" where
  "group_checks d [] = Inr d"
| "group_checks d (c # cs) =
     (case group_check d c of Inl e \<Rightarrow> Inl e | Inr d' \<Rightarrow> group_checks d' cs)"

text \<open>
  The body of the second loop, for the checks of one category:
  \<^verbatim>\<open>
  if not checks:
      category_scores[category] = 100
      continue
  passed = sum(1 for check in checks if check['passed'])
  total = len(checks)
  severity_sum = sum(check['severity'] for check in checks if not check['passed'])
  severity_deduction = severity_sum * (10 / total) if total > 0 else 0
  score = 100 * (passed / total) if total > 0 else 100
  score = max(0, score - severity_deduction)
  category_scores[category] = round(score, 1)
  \<close>
\<close>

definition category_score :: "check list \<Rightarrow> error + rat" where
  "category_score checks =
     (if checks = [] then Inr 100
      else
        (case comprehension (\<lambda>c. getitem ''passed'' (passed c)) (\<lambda>c. Inr (1::nat)) checks of
           Inl e \<Rightarrow> Inl e
         | Inr ones \<Rightarrow>
             (case comprehension
                     (\<lambda>c. case getitem ''passed'' (passed c) of
                             Inl e \<Rightarrow> Inl e | Inr p \<Rightarrow> Inr (\<not> p))
                     (\<lambda>c. getitem ''severity'' (severity c)) checks of
                Inl e \<Rightarrow> Inl e
              | Inr severities \<Rightarrow>
                  let passed = sum_list ones;
                      total = length checks;
                      severity_sum = sum_list severities;
                      severity_deduction =
                        (if total > 0
                         then float_mul (float_of_int severity_sum)
                                (int_truediv 10 (int total))
                         else 0);
                      score =
                        (if total > 0
                         then float_mul 100 (int_truediv (int passed) (int total))
                         else 100);
                      score = max 0 (float_sub score severity_deduction)
                  in Inr (round1 score))))"

definition calculate_category_scores :: "check list \<Rightarrow> error + (string \<times> rat) list" where
  "calculate_category_scores category_results =
     (case group_checks categories category_results of
        Inl e \<Rightarrow> Inl e
      | Inr d \<Rightarrow>
          comprehension (\<lambda>kv. Inr True)
            (\<lambda>(k, checks). case category_score checks of
                              Inl e \<Rightarrow> Inl e | Inr s \<Rightarrow> Inr (k, s)) d)"

section \<open>Insights (analysis.py, generate_recruiter_insights)\<close>

text \<open>
  The strengths record is the dict under \<^verbatim>\<open>resume_strengths\<close>. Each of its two keys
  may be absent, and its value is a string or a list of strings.
\<close>

datatype jvalue = Str string | Lst "string list"

record strengths =
  top_skills :: "jvalue option"
  wow_factor :: "jvalue option"

text \<open>An insight is a dict with the keys \<^verbatim>\<open>type\<close>, \<^verbatim>\<open>title\<close>, \<^verbatim>\<open>description\<close> and \<^verbatim>\<open>items\<close>.\<close>

record insight =
  insight_type :: string
  title :: string
  description :: string
  items :: "string list"

text \<open>The truth value of a string or a list in a condition: it is not empty.\<close>

fun truthy :: "jvalue \<Rightarrow> bool" where
  "truthy (Str s) = (s \<noteq> [])"
| "truthy (Lst xs) = (xs \<noteq> [])"

text \<open>\<^verbatim>\<open>sep.join(xs)\<close>.\<close>

fun join :: "string \<Rightarrow> string list \<Rightarrow> string" where
  "join sep [] = []"
| "join sep [x] = x"
| "join sep (x # y # ys) = x @ sep @ join sep (y # ys)"

text \<open>The decimal text of \<^verbatim>\<open>len(...)\<close> in an f-string.\<close>

definition digit_char :: "nat \<Rightarrow> char" where
  "digit_char d = ''0123456789'' ! d"

function str_nat :: "nat \<Rightarrow> string" where
  "str_nat n = (if n < 10 then [digit_char n] else str_nat (n div 10) @ [digit_char (n mod 10)])"
  by pat_completeness auto
termination
  by (relation "measure (\<lambda>n. n)") auto

declare str_nat.simps [simp del]

text \<open>\<^verbatim>\<open>f"{check['check_name']}: {check['explanation']}"\<close>\<close>

definition check_item :: "check \<Rightarrow> error + string" where
  "check_item c =
     (case getitem ''check_name'' (check_name c) of
        Inl e \<Rightarrow> Inl e
      | Inr n \<Rightarrow>
          (case getitem ''explanation'' (explanation c) of
             Inl e \<Rightarrow> Inl e
           | Inr x \<Rightarrow> Inr (n @ '': '' @ x)))"

text \<open>
  The conditions \<^verbatim>\<open>check['severity'] >= 8\<close> of the deal-breakers and
  \<^verbatim>\<open>4 <= check['severity'] < 8\<close> of the red flags.
\<close>

definition severity_at_least_8 :: "check \<Rightarrow> error + bool" where
  "severity_at_least_8 c =
     (case getitem ''severity'' (severity c) of Inl e \<Rightarrow> Inl e | Inr s \<Rightarrow> Inr (8 \<le> s))"

definition severity_4_to_7 :: "check \<Rightarrow> error + bool" where
  "severity_4_to_7 c =
     (case getitem ''severity'' (severity c) of
        Inl e \<Rightarrow> Inl e
      | Inr s \<Rightarrow> Inr (4 \<le> s \<and> s < 8))"

text \<open>
  \<^verbatim>\<open>
  deal_breakers = [check for check in significant_results if check['severity'] >= 8]
  if deal_breakers:
      insights.append({
          "type": "critical",
          "title": "Critical Issues Detected",
          "description": f"Found {len(deal_breakers)} critical issues that may significantly impact candidate viability.",
          "items": [f"{check['check_name']}: {check['explanation']}" for check in deal_breakers]
      })
  \<close>
  and the same for the red flags. Each of these functions returns the insights it appends.
\<close>

definition critical_insight :: "check list \<Rightarrow> error + insight list" where
  "critical_insight significant_results =
     (case comprehension severity_at_least_8 Inr significant_results of
        Inl e \<Rightarrow> Inl e
      | Inr deal_breakers \<Rightarrow>
          if deal_breakers \<noteq> []
          then (case comprehension (\<lambda>c. Inr True) check_item deal_breakers of
                  Inl e \<Rightarrow> Inl e
                | Inr its \<Rightarrow>
                    Inr [\<lparr>insight_type = ''critical'',
                          title = ''Critical Issues Detected'',
                          description = ''Found '' @ str_nat (length deal_breakers)
                            @ '' critical issues that may significantly impact candidate viability.'',
                          items = its\<rparr>])
          else Inr [])"

definition warning_insight :: "check list \<Rightarrow> error + insight list" where
  "warning_insight significant_results =
     (case comprehension severity_4_to_7 Inr significant_results of
        Inl e \<Rightarrow> Inl e
      | Inr red_flags \<Rightarrow>
          if red_flags \<noteq> []
          then (case comprehension (\<lambda>c. Inr True) check_item red_flags of
                  Inl e \<Rightarrow> Inl e
                | Inr its \<Rightarrow>
                    Inr [\<lparr>insight_type = ''warning'',
                          title = ''Potential Red Flags'',
                          description = ''Found '' @ str_nat (length red_flags)
                            @ '' issues that warrant further discussion with the candidate.'',
                          items = its\<rparr>])
          else Inr [])"

text \<open>
  \<^verbatim>\<open>
  top_skills = strengths.get("top_skills", [])
  wow_factor = strengths.get("wow_factor", "")
  if top_skills or wow_factor:
      strength_items = []
      if top_skills:
          if isinstance(top_skills, list):
              strength_items.append(f"Top skills: {', '.join(top_skills)}")
          else:
              strength_items.append(f"Top skills: {top_skills}")
      if wow_factor:
          if isinstance(wow_factor, list):
              joined_wow = ', '.join(wow_factor[:-1])
              if len(wow_factor) > 1:
                  joined_wow += f", and {wow_factor[-1]}"
              else:
                  joined_wow = wow_factor[0]
              strength_items.append(f"Standout feature: {joined_wow}")
          else:
              strength_items.append(f"Standout feature: {wow_factor}")
      insights.append({"type": "strength", "title": "Resume Strengths",
          "description": "Key strengths identified in this candidate's resume:",
          "items": strength_items})
  \<close>
  The list \<^verbatim>\<open>wow_factor\<close> is not empty where \<^verbatim>\<open>wow_factor[0]\<close> is read.
\<close>

definition top_skills_items :: "jvalue \<Rightarrow> string list" where
  "top_skills_items v =
     (if truthy v
      then (case v of
              Lst xs \<Rightarrow> [''Top skills: '' @ join '', '' xs]
            | Str s \<Rightarrow> [''Top skills: '' @ s])
      else [])"

definition wow_factor_items :: "jvalue \<Rightarrow> string list" where
  "wow_factor_items v =
     (if truthy v
      then (case v of
              Lst xs \<Rightarrow>
                (let joined_wow = join '', '' (butlast xs);
                     joined_wow = (if length xs > 1 then joined_wow @ '', and '' @ last xs
                                   else xs ! 0)
                 in [''Standout feature: '' @ joined_wow])
            | Str s \<Rightarrow> [''Standout feature: '' @ s])
      else [])"

definition strength_insight :: "strengths \<Rightarrow> insight list" where
  "strength_insight st =
     (let top_skills = (case top_skills st of None \<Rightarrow> Lst [] | Some v \<Rightarrow> v);
          wow_factor = (case wow_factor st of None \<Rightarrow> Str [] | Some v \<Rightarrow> v)
      in if truthy top_skills \<or> truthy wow_factor
         then [\<lparr>insight_type = ''strength'',
                 title = ''Resume Strengths'',
                 description = ''Key strengths identified in this candidate's resume:'',
                 items = top_skills_items top_skills @ wow_factor_items wow_factor\<rparr>]
         else [])"

text \<open>
  \<^verbatim>\<open>
  for check in significant_results:
      if check['check_name'] == "Unexplained employment gaps":
          interview_questions.append(f"Ask about the gap between positions: \"{check['explanation']}\"")
      elif check['check_name'] == "Education and experience mismatch":
          interview_questions.append(f"Explore transition from education to current career path: \"{check['explanation']}\"")
      elif check['check_name'] == "Experience and skills mismatch":
          interview_questions.append(f"Verify skill proficiency: \"{check['explanation']}\"")
  if interview_questions:
      insights.append({"type": "interview", "title": "Suggested Interview Questions",
          "description": "Based on resume anomalies, consider asking:",
          "items": interview_questions})
  \<close>
\<close>

definition quoted :: "string \<Rightarrow> string" where
  "quoted s = [CHR 0x22] @ s @ [CHR 0x22]"

definition interview_question :: "check \<Rightarrow> error + string list" where
  "interview_question c =
     (case getitem ''check_name'' (check_name c) of
        Inl e \<Rightarrow> Inl e
      | Inr n \<Rightarrow>
          if n = ''Unexplained employment gaps''
          then (case getitem ''explanation'' (explanation c) of
                  Inl e \<Rightarrow> Inl e
                | Inr x \<Rightarrow> Inr [''Ask about the gap between positions: '' @ quoted x])
          else if n = ''Education and experience mismatch''
          then (case getitem ''explanation'' (explanation c) of
                  Inl e \<Rightarrow> Inl e
                | Inr x \<Rightarrow>
                    Inr [''Explore transition from education to current career path: ''
                         @ quoted x])
          else if n = ''Experience and skills mismatch''
          then (case getitem ''explanation'' (explanation c) of
                  Inl e \<Rightarrow> Inl e
                | Inr x \<Rightarrow> Inr [''Verify skill proficiency: '' @ quoted x])
          else Inr [])"

fun interview_questions :: "check list \<Rightarrow> error + string list" where
  "interview_questions [] = Inr []"
| "interview_questions (c # cs) =
     (case interview_question c of
        Inl e \<Rightarrow> Inl e
      | Inr q \<Rightarrow>
          (case interview_questions cs of Inl e \<Rightarrow> Inl e | Inr qs \<Rightarrow> Inr (q @ qs)))"

definition interview_insight :: "check list \<Rightarrow> error + insight list" where
  "interview_insight significant_results =
     (case interview_questions significant_results of
        Inl e \<Rightarrow> Inl e
      | Inr qs \<Rightarrow>
          if qs \<noteq> []
          then Inr [\<lparr>insight_type = ''interview'',
                     title = ''Suggested Interview Questions'',
                     description = ''Based on resume anomalies, consider asking:'',
                     items = qs\<rparr>]
          else Inr [])"

text \<open>
  The whole function: the significant results, then the four groups in the order in which
  they are appended. The strengths group raises nothing, so its place among the reads of
  the other groups does not matter.
\<close>

definition generate_recruiter_insights :: "check list \<Rightarrow> strengths \<Rightarrow> error + insight list" where
  "generate_recruiter_insights results st =
     (case comprehension is_significant Inr results of
        Inl e \<Rightarrow> Inl e
      | Inr significant_results \<Rightarrow>
          (case critical_insight significant_results of
             Inl e \<Rightarrow> Inl e
           | Inr critical \<Rightarrow>
               (case warning_insight significant_results of
                  Inl e \<Rightarrow> Inl e
                | Inr warning \<Rightarrow>
                    (case interview_insight significant_results of
                       Inl e \<Rightarrow> Inl e
                     | Inr interview \<Rightarrow>
                         Inr (critical @ warning @ strength_insight st @ interview)))))"

section \<open>The analysis step of main (app.py, lines 95-110)\<close>

text \<open>
  \<^verbatim>\<open>
  for result in results: ...          # normalization, above
  overall_score = calculate_overall_score(results)
  category_scores = calculate_category_scores(results)
  recruiter_insights = generate_recruiter_insights(results, strengths)
  \<close>
  Nothing in \<^verbatim>\<open>main\<close> catches an exception of these calls, so the first one ends
  the step and no later value is computed.
\<close>

definition main_analysis ::
  "check list \<Rightarrow> strengths
     \<Rightarrow> error + (check list \<times> rat \<times> (string \<times> rat) list \<times> insight list)" where
  "main_analysis results st =
     (case normalize_results results of
        Inl e \<Rightarrow> Inl e
      | Inr results' \<Rightarrow>
          (case calculate_overall_score results' of
             Inl e \<Rightarrow> Inl e
           | Inr overall_score \<Rightarrow>
               (case calculate_category_scores results' of
                  Inl e \<Rightarrow> Inl e
                | Inr category_scores \<Rightarrow>
                    (case generate_recruiter_insights results' st of
                       Inl e \<Rightarrow> Inl e
                     | Inr recruiter_insights \<Rightarrow>
                         Inr (results', overall_score, category_scores, recruiter_insights)))))"

section \<open>Category scores over a store of objects\<close>

text \<open>
  The records of \<^verbatim>\<open>category_results\<close> are dicts that the caller still holds, and
  \<^verbatim>\<open>calculate_category_scores\<close> assigns to a dict. To see which dict, the objects
  are put in a store: a list of records, the address of an object being its index. The
  argument is a list of addresses, \<^verbatim>\<open>check.copy()\<close> allocates a new object at the
  end of the store, \<^verbatim>\<open>check_result['passed'] = True\<close> updates the object at the
  address \<^verbatim>\<open>check_result\<close>, and the lists of \<^verbatim>\<open>categories\<close> hold addresses.
  The function returns the store after the call with its result.
\<close>

definition group_check_heap ::
  "check list \<Rightarrow> (string \<times> nat list) list \<Rightarrow> nat
     \<Rightarrow> check list \<times> (error + (string \<times> nat list) list)" where
  "group_check_heap h d a =
     (let check = h ! a in
      case is_significant check of
        Inl e \<Rightarrow> (h, Inl e)
      | Inr sig \<Rightarrow>
          let check_result = length h;
              h1 = h @ [check]
          in (case (if \<not> sig
                    then (case getitem ''passed'' (passed check) of
                            Inl e \<Rightarrow> Inl e
                          | Inr p \<Rightarrow> Inr (\<not> p))
                    else Inr False) of
                Inl e \<Rightarrow> (h1, Inl e)
              | Inr flip \<Rightarrow>
                  let h2 = (if flip
                            then h1[check_result := (h1 ! check_result)\<lparr>passed := Some True\<rparr>]
                            else h1)
                  in (case getitem ''category'' (category (h2 ! check_result)) of
                        Inl e \<Rightarrow> (h2, Inl e)
                      | Inr k \<Rightarrow>
                          (h2, Inr (if k \<in> set (map fst d)
                                    then dict_append k check_result d else d)))))"

fun group_checks_heap ::
  "check list \<Rightarrow> (string \<times> nat list) list \<Rightarrow> nat list
     \<Rightarrow> check list \<times> (error + (string \<times> nat list) list)" where
  "group_checks_heap h d [] = (h, Inr d)"
| "group_checks_heap h d (a # as) =
     (case group_check_heap h d a of
        (h', Inl e) \<Rightarrow> (h', Inl e)
      | (h', Inr d') \<Rightarrow> group_checks_heap h' d' as)"

definition calculate_category_scores_heap ::
  "check list \<Rightarrow> nat list \<Rightarrow> check list \<times> (error + (string \<times> rat) list)" where
  "calculate_category_scores_heap h category_results =
     (case group_checks_heap h categories category_results of
        (h', Inl e) \<Rightarrow> (h', Inl e)
      | (h', Inr d) \<Rightarrow>
          (h', comprehension (\<lambda>kv. Inr True)
                 (\<lambda>(k, checks). case category_score (map (\<lambda>r. h' ! r) checks) of
                                   Inl e \<Rightarrow> Inl e | Inr s \<Rightarrow> Inr (k, s)) d))"

section \<open>The specification's formulas\<close>

text \<open>
  The definitions of this section follow the words of the specification, not the code;
  the theorems compare the code with them.
\<close>

text \<open>A significant issue: \<open>passed = false\<close> and \<open>severity \<ge> 4\<close>.\<close>

definition significant :: "check \<Rightarrow> bool" where
  "significant c =
     (passed c = Some False \<and> (case severity c of None \<Rightarrow> False | Some s \<Rightarrow> 4 \<le> s))"

definition severity_of :: "check \<Rightarrow> int" where
  "severity_of c = (case severity c of None \<Rightarrow> 0 | Some s \<Rightarrow> s)"

text \<open>
  100 minus K times the sum of the severities of the significant issues, clamped to
  [0, 100] and rounded to one decimal, in float arithmetic.
\<close>

definition spec_overall_score :: "rat \<Rightarrow> check list \<Rightarrow> rat" where
  "spec_overall_score K results =
     round1 (max 0 (min 100
       (float_sub 100
          (float_mul (float_of_int (sum_list (map severity_of (filter significant results))))
             K))))"

text \<open>
  A normalized result: its reads succeed, and it is not a failure of severity below 4.
  Every result that normalization returns is normalized.
\<close>

definition normalized :: "check \<Rightarrow> bool" where
  "normalized c = (readable c \<and> \<not> demoted c)"

text \<open>
  The score of category \<open>C\<close>: 100 when no result has this category; otherwise
  \<open>max(0, 100 \<times> pass_rate - severity_sum \<times> (10 / count))\<close>, rounded to one decimal,
  in float arithmetic.
\<close>

definition spec_category_score :: "string \<Rightarrow> check list \<Rightarrow> rat" where
  "spec_category_score C results =
     (let checks_C = filter (\<lambda>c. category c = Some C) results in
      if checks_C = [] then 100
      else
        let count = length checks_C;
            pass_rate =
              int_truediv (int (length (filter (\<lambda>c. passed c = Some True) checks_C)))
                (int count);
            severity_sum =
              sum_list (map severity_of (filter (\<lambda>c. passed c = Some False) checks_C))
        in round1 (max 0
             (float_sub (float_mul 100 pass_rate)
                (float_mul (float_of_int severity_sum) (int_truediv 10 (int count))))))"

text \<open>A result with all five fields of the data model.\<close>

definition well_formed :: "check \<Rightarrow> bool" where
  "well_formed c =
     (check_name c \<noteq> None \<and> passed c \<noteq> None \<and> explanation c \<noteq> None
      \<and> severity c \<noteq> None \<and> category c \<noteq> None)"

definition name_of :: "check \<Rightarrow> string" where
  "name_of c = (case check_name c of None \<Rightarrow> [] | Some n \<Rightarrow> n)"

definition explanation_of :: "check \<Rightarrow> string" where
  "explanation_of c = (case explanation c of None \<Rightarrow> [] | Some x \<Rightarrow> x)"

text \<open>
  The three canonical names, the template of each, and the items of the interview group:
  one per significant result with a canonical name, in input order. The specification
  fixes one template per name without giving its text; the text is that of the code.
\<close>

definition canonical_interview_names :: "string list" where
  "canonical_interview_names =
     [''Unexplained employment gaps'', ''Education and experience mismatch'',
      ''Experience and skills mismatch'']"

definition interview_template :: "string \<Rightarrow> string \<Rightarrow> string" where
  "interview_template n x =
     (if n = ''Unexplained employment gaps''
      then ''Ask about the gap between positions: '' @ quoted x
      else if n = ''Education and experience mismatch''
      then ''Explore transition from education to current career path: '' @ quoted x
      else ''Verify skill proficiency: '' @ quoted x)"

definition spec_interview_items :: "check list \<Rightarrow> string list" where
  "spec_interview_items results =
     map (\<lambda>c. interview_template (name_of c) (explanation_of c))
       (filter (\<lambda>c. significant c \<and> name_of c \<in> set canonical_interview_names) results)"

text \<open>
  The text after \<open>Standout feature:\<close>, in the words of the specification.
\<close>

fun spec_standout :: "jvalue \<Rightarrow> string" where
  "spec_standout (Lst ws) =
     (if 1 < length ws then join '', '' (butlast ws) @ '', and '' @ last ws else hd ws)"
| "spec_standout (Str s) = s"

section \<open>Notions for the store\<close>

text \<open>
  Reading a dict of addresses in a store, and the addresses of a dict being allocated.
\<close>

definition deref :: "check list \<Rightarrow> (string \<times> nat list) list \<Rightarrow> (string \<times> check list) list" where
  "deref h d = map (\<lambda>(k, rs). (k, map (\<lambda>r. h ! r) rs)) d"

definition valid_refs :: "check list \<Rightarrow> (string \<times> nat list) list \<Rightarrow> bool" where
  "valid_refs h d = (\<forall>(k, rs) \<in> set d. \<forall>r \<in> set rs. r < length h)"

section \<open>Properties of normalization\<close>

lemma normalize_result_cases:
  "normalize_result r = Inr r' \<Longrightarrow>
     (demoted r \<and> r' = r\<lparr>passed := Some True, severity := Some 0, explanation := Some ''''\<rparr>)
     \<or> (\<not> demoted r \<and> r' = r)"
  by (auto simp: normalize_result_def getitem_def demoted_def
           split: option.splits if_splits)

lemma normalize_results_length: "normalize_results rs = Inr rs' \<Longrightarrow> length rs' = length rs"
  by (induction rs arbitrary: rs') (auto split: sum.splits)

lemma normalize_results_nth:
  "normalize_results rs = Inr rs' \<Longrightarrow> i < length rs \<Longrightarrow> normalize_result (rs ! i) = Inr (rs' ! i)"
proof (induction rs arbitrary: rs' i)
  case Nil
  then show ?case by simp
next
  case (Cons r rs)
  then show ?case
    by (cases i) (auto split: sum.splits)
qed

lemma normalize_result_failed:
  "normalize_result r = Inr r' \<Longrightarrow> passed r' = Some False \<Longrightarrow> \<exists>s. severity r' = Some s \<and> 4 \<le> s"
  by (auto simp: normalize_result_def getitem_def split: option.splits if_splits)

lemma normalize_result_fixed:
  "normalize_result r = Inr r' \<Longrightarrow> normalize_result r' = Inr r'"
  by (auto simp: normalize_result_def getitem_def split: option.splits if_splits)

lemma normalize_results_fixed:
  "normalize_results rs = Inr rs' \<Longrightarrow> normalize_results rs' = Inr rs'"
proof (induction rs arbitrary: rs')
  case Nil
  then show ?case by simp
next
  case (Cons r rs)
  from Cons.prems obtain q qs where
    q: "normalize_result r = Inr q" and qs: "normalize_results rs = Inr qs" and rs': "rs' = q # qs"
    by (auto split: sum.splits)
  from q have "normalize_result q = Inr q" by (rule normalize_result_fixed)
  moreover from qs have "normalize_results qs = Inr qs" by (rule Cons.IH)
  ultimately show ?case by (simp add: rs')
qed

lemma normalize_result_normalized:
  "normalize_result r = Inr r' \<Longrightarrow> normalized r'"
  by (auto simp: normalize_result_def getitem_def normalized_def readable_def demoted_def
           split: option.splits if_splits)

lemma normalize_results_normalized:
  "normalize_results rs = Inr rs' \<Longrightarrow> list_all normalized rs'"
  by (induction rs arbitrary: rs')
     (auto split: sum.splits dest: normalize_result_normalized)

text \<open>
  Claim C3, as amended. When the loop finishes on raw results \<open>rs\<close> with \<open>rs'\<close>, the two
  lists have the same length and, position by position: a result left failed has a
  severity of at least 4; a raw failed result of severity below 4 has become passed, with
  severity 0 and the empty explanation; every other raw result is unchanged, so a raw
  passed result keeps the severity and the explanation it came with.
\<close>

theorem normalize_results_invariant:
  assumes "normalize_results rs = Inr rs'"
  shows "length rs' = length rs \<and>
         (\<forall>i < length rs.
            (passed (rs' ! i) = Some False \<longrightarrow> (\<exists>s. severity (rs' ! i) = Some s \<and> 4 \<le> s)) \<and>
            (demoted (rs ! i) \<longrightarrow>
               rs' ! i = (rs ! i)\<lparr>passed := Some True, severity := Some 0,
                                   explanation := Some ''''\<rparr>) \<and>
            (\<not> demoted (rs ! i) \<longrightarrow> rs' ! i = rs ! i))"
proof (intro conjI allI impI)
  show "length rs' = length rs" using assms by (rule normalize_results_length)
next
  fix i assume i: "i < length rs"
  have step: "normalize_result (rs ! i) = Inr (rs' ! i)"
    using assms i by (rule normalize_results_nth)
  { assume "passed (rs' ! i) = Some False"
    with step show "\<exists>s. severity (rs' ! i) = Some s \<and> 4 \<le> s"
      by (rule normalize_result_failed) }
  { assume "demoted (rs ! i)"
    with normalize_result_cases [OF step]
    show "rs' ! i = (rs ! i)\<lparr>passed := Some True, severity := Some 0,
                              explanation := Some ''''\<rparr>"
      by blast }
  { assume "\<not> demoted (rs ! i)"
    with normalize_result_cases [OF step] show "rs' ! i = rs ! i" by blast }
qed

theorem normalize_results_invariant_witness:
  "normalize_results
     [\<lparr>check_name = Some ''Repeated phrases'', passed = Some False,
       explanation = Some ''one repeated bullet'', severity = Some 2,
       category = Some ''Content''\<rparr>,
      \<lparr>check_name = Some ''Missing contact information'', passed = Some False,
       explanation = Some ''no email'', severity = Some 9, category = Some ''Content''\<rparr>]
   = Inr
     [\<lparr>check_name = Some ''Repeated phrases'', passed = Some True,
       explanation = Some '''', severity = Some 0, category = Some ''Content''\<rparr>,
      \<lparr>check_name = Some ''Missing contact information'', passed = Some False,
       explanation = Some ''no email'', severity = Some 9, category = Some ''Content''\<rparr>]
   \<and> demoted \<lparr>check_name = Some ''Repeated phrases'', passed = Some False,
       explanation = Some ''one repeated bullet'', severity = Some 2,
       category = Some ''Content''\<rparr>
   \<and> \<not> demoted \<lparr>check_name = Some ''Missing contact information'', passed = Some False,
       explanation = Some ''no email'', severity = Some 9, category = Some ''Content''\<rparr>"
proof -
  let ?a = "\<lparr>check_name = Some ''Repeated phrases'', passed = Some False,
       explanation = Some ''one repeated bullet'', severity = Some 2,
       category = Some ''Content''\<rparr>"
  let ?b = "\<lparr>check_name = Some ''Missing contact information'', passed = Some False,
       explanation = Some ''no email'', severity = Some 9, category = Some ''Content''\<rparr>"
  have run: "normalize_results [?a, ?b] =
      Inr [?a\<lparr>passed := Some True, severity := Some 0, explanation := Some ''''\<rparr>, ?b]"
    by (simp add: normalize_result_def getitem_def)
  have da: "demoted ?a" and db: "\<not> demoted ?b"
    by (simp_all add: demoted_def)
  from normalize_results_invariant [OF run] da db run show ?thesis
    by simp
qed

text \<open>
  Claim C3, as stated, fails: a raw result that arrives passed with severity 5 and an
  explanation is not touched by the loop, so it leaves normalization passed with
  severity 5 and that explanation.
\<close>

theorem normalize_results_passed_counterexample:
  "normalize_results
     [\<lparr>check_name = Some ''Frequent job switching'', passed = Some True,
       explanation = Some ''two short tenures'', severity = Some 5,
       category = Some ''Consistency''\<rparr>]
   = Inr
     [\<lparr>check_name = Some ''Frequent job switching'', passed = Some True,
       explanation = Some ''two short tenures'', severity = Some 5,
       category = Some ''Consistency''\<rparr>]"
  by (simp add: normalize_result_def getitem_def)

text \<open>
  Claim C8. Normalization is idempotent: whenever the loop finishes on \<open>rs\<close> with
  \<open>rs'\<close>, running it on \<open>rs'\<close> finishes and returns \<open>rs'\<close> unchanged.
\<close>

theorem normalize_results_idempotent:
  assumes "normalize_results rs = Inr rs'"
  shows "normalize_results rs' = Inr rs'"
  using assms by (rule normalize_results_fixed)

theorem normalize_results_idempotent_witness:
  "normalize_results
     [\<lparr>check_name = Some ''Repeated phrases'', passed = Some True,
       explanation = Some '''', severity = Some 0, category = Some ''Content''\<rparr>,
      \<lparr>check_name = Some ''Missing contact information'', passed = Some False,
       explanation = Some ''no email'', severity = Some 9, category = Some ''Content''\<rparr>]
   = Inr
     [\<lparr>check_name = Some ''Repeated phrases'', passed = Some True,
       explanation = Some '''', severity = Some 0, category = Some ''Content''\<rparr>,
      \<lparr>check_name = Some ''Missing contact information'', passed = Some False,
       explanation = Some ''no email'', severity = Some 9, category = Some ''Content''\<rparr>]"
proof -
  have run: "normalize_results
     [\<lparr>check_name = Some ''Repeated phrases'', passed = Some False,
       explanation = Some ''one repeated bullet'', severity = Some 2,
       category = Some ''Content''\<rparr>,
      \<lparr>check_name = Some ''Missing contact information'', passed = Some False,
       explanation = Some ''no email'', severity = Some 9, category = Some ''Content''\<rparr>]
   = Inr
     [\<lparr>check_name = Some ''Repeated phrases'', passed = Some True,
       explanation = Some '''', severity = Some 0, category = Some ''Content''\<rparr>,
      \<lparr>check_name = Some ''Missing contact information'', passed = Some False,
       explanation = Some ''no email'', severity = Some 9, category = Some ''Content''\<rparr>]"
    by (simp add: normalize_result_def getitem_def)
  show ?thesis by (rule normalize_results_idempotent [OF run])
qed

section \<open>Properties of the overall score\<close>

lemma round_half_even_mono: "x \<le> y \<Longrightarrow> round_half_even x \<le> round_half_even y"
proof -
  assume xy: "x \<le> y"
  have fl: "\<lfloor>x\<rfloor> \<le> \<lfloor>y\<rfloor>" using xy by (rule floor_mono)
  show ?thesis
  proof (cases "\<lfloor>x\<rfloor> = \<lfloor>y\<rfloor>")
    case True
    then show ?thesis using xy
      by (auto simp: round_half_even_def Let_def)
  next
    case False
    with fl have "\<lfloor>x\<rfloor> + 1 \<le> \<lfloor>y\<rfloor>" by simp
    moreover have "round_half_even x \<le> \<lfloor>x\<rfloor> + 1" by (simp add: round_half_even_def Let_def)
    moreover have "\<lfloor>y\<rfloor> \<le> round_half_even y" by (simp add: round_half_even_def Let_def)
    ultimately show ?thesis by linarith
  qed
qed

lemma round_half_even_of_int: "round_half_even (of_int n) = n"
  by (simp add: round_half_even_def Let_def)

lemma round_half_even_minus: "round_half_even (- x) = - round_half_even x"
proof (cases "x = of_int \<lfloor>x\<rfloor>")
  case True
  then obtain n where "x = of_int n" ..
  then have "- x = of_int (- n)" by simp
  then show ?thesis
    using \<open>x = of_int n\<close> by (simp only: round_half_even_of_int)
next
  case False
  then have fl: "\<lfloor>- x\<rfloor> = - \<lfloor>x\<rfloor> - 1"
    by (metis Ints_of_int ceiling_def ceiling_altdef of_int_floor_cancel diff_minus_eq_add
        minus_diff_eq minus_add_cancel add.commute uminus_add_conv_diff)
  show ?thesis
    unfolding round_half_even_def Let_def fl
    by (auto simp: algebra_simps)
qed

lemma ilog2_bounds:
  assumes "0 < x"
  shows "2 powi (ilog2 x) \<le> x \<and> x < 2 powi (ilog2 x + 1)"
proof -
  obtain a b where q: "quotient_of x = (a, b)" by (cases "quotient_of x")
  then have b: "0 < b" and x: "x = of_int a / of_int b"
    by (auto dest: quotient_of_denom_pos quotient_of_div)
  with assms have a: "0 < a" by (simp add: zero_less_divide_iff)
  define la where "la = bitlen a"
  define lb where "lb = bitlen b"
  have la1: "1 \<le> la" and lb1: "1 \<le> lb"
    using a b by (auto simp: la_def lb_def bitlen_alt_def)
  have "2 ^ nat (la - 1) \<le> a" "a < 2 ^ nat la" "2 ^ nat (lb - 1) \<le> b" "b < 2 ^ nat lb"
    using bitlen_bounds [OF a] bitlen_bounds [OF b] by (simp_all add: la_def lb_def)
  then have "(of_int (2 ^ nat (la - 1)) :: rat) \<le> of_int a"
      "(of_int a :: rat) < of_int (2 ^ nat la)"
      "(of_int (2 ^ nat (lb - 1)) :: rat) \<le> of_int b"
      "(of_int b :: rat) < of_int (2 ^ nat lb)"
    by (simp_all only: of_int_le_iff of_int_less_iff)
  then have ra: "(2::rat) powi (la - 1) \<le> of_int a" "of_int a < (2::rat) powi la"
    and rb: "(2::rat) powi (lb - 1) \<le> of_int b" "of_int b < (2::rat) powi lb"
    using la1 lb1 by (simp_all add: power_int_nonneg_exp)
  have pa: "(0::rat) < of_int a" and pb: "(0::rat) < of_int b" using a b by simp_all
  have up: "x < 2 powi (la - lb + 1)"
  proof -
    have "of_int a / of_int b < (2::rat) powi la / 2 powi (lb - 1)"
      using ra(2) rb(1) pa by (intro frac_less) simp_all
    also have "\<dots> = 2 powi (la - (lb - 1))"
      by (simp add: power_int_diff)
    finally show ?thesis by (simp add: x algebra_simps)
  qed
  have low: "2 powi (la - lb - 1) < x"
  proof -
    have "(2::rat) powi (la - 1) / 2 powi lb < of_int a / of_int b"
      using ra(1) rb(2) pb by (intro frac_less2) simp_all
    moreover have "(2::rat) powi (la - 1) / 2 powi lb = 2 powi (la - 1 - lb)"
      by (simp add: power_int_diff)
    ultimately show ?thesis by (simp add: x algebra_simps)
  qed
  have il: "ilog2 x = (if x < 2 powi (la - lb) then la - lb - 1 else la - lb)"
    by (simp add: ilog2_def q la_def lb_def Let_def)
  show ?thesis
  proof (cases "x < 2 powi (la - lb)")
    case True
    with low show ?thesis by (simp add: il)
  next
    case False
    with up show ?thesis by (simp add: il)
  qed
qed

lemma power_int_two_mono: "m \<le> n \<Longrightarrow> (2::rat) powi m \<le> 2 powi n"
  by (rule power_int_increasing) simp_all

lemma ilog2_unique:
  assumes "0 < x" and "2 powi e \<le> x" and "x < 2 powi (e + 1)"
  shows "ilog2 x = e"
proof -
  from ilog2_bounds [OF assms(1)] have b: "2 powi (ilog2 x) \<le> x" "x < 2 powi (ilog2 x + 1)"
    by simp_all
  have "\<not> ilog2 x + 1 \<le> e"
  proof
    assume "ilog2 x + 1 \<le> e"
    then have "(2::rat) powi (ilog2 x + 1) \<le> 2 powi e" by (rule power_int_two_mono)
    with b(2) assms(2) show False by simp
  qed
  moreover have "\<not> e + 1 \<le> ilog2 x"
  proof
    assume "e + 1 \<le> ilog2 x"
    then have "(2::rat) powi (e + 1) \<le> 2 powi (ilog2 x)" by (rule power_int_two_mono)
    with b(1) assms(3) show False by simp
  qed
  ultimately show ?thesis by simp
qed

lemma ilog2_mono:
  assumes "0 < x" and "x \<le> y"
  shows "ilog2 x \<le> ilog2 y"
proof (rule ccontr)
  assume "\<not> ilog2 x \<le> ilog2 y"
  then have "ilog2 y + 1 \<le> ilog2 x" by simp
  then have "(2::rat) powi (ilog2 y + 1) \<le> 2 powi (ilog2 x)" by (rule power_int_two_mono)
  moreover have "2 powi (ilog2 x) \<le> x" using ilog2_bounds [OF assms(1)] by simp
  moreover have "y < 2 powi (ilog2 y + 1)" using ilog2_bounds [of y] assms by simp
  ultimately show False using assms(2) by simp
qed


lemma fl_zero: "fl 0 = 0"
  by (simp add: fl_def)

lemma fl_minus: "fl (- x) = - fl x"
  by (simp add: fl_def Let_def round_half_even_minus)

lemma ulp_pos: "(0::rat) < 2 powi n"
  by (simp add: zero_less_power_int)

lemma fl_pos_bounds:
  assumes "0 < x"
  shows "2 powi (ilog2 x) \<le> fl x \<and> fl x \<le> 2 powi (ilog2 x + 1)"
proof -
  define e where "e = ilog2 x"
  define u :: rat where "u = 2 powi (e - 52)"
  have u: "0 < u" by (simp add: u_def ulp_pos)
  have b: "2 powi e \<le> x" "x < 2 powi (e + 1)"
    using ilog2_bounds [OF assms] by (simp_all add: e_def)
  have lo: "(2::rat) powi e = of_int (2 ^ 52) * u"
    by (simp add: u_def power_int_diff)
  have hi: "(2::rat) powi (e + 1) = of_int (2 ^ 53) * u"
    by (simp add: u_def power_int_diff power_int_add)
  have "of_int (2 ^ 52) \<le> x / u"
    using b(1) u by (simp add: lo pos_le_divide_eq)
  then have "round_half_even (of_int (2 ^ 52)) \<le> round_half_even (x / u)"
    by (rule round_half_even_mono)
  then have r1: "2 ^ 52 \<le> round_half_even (x / u)"
    by (simp only: round_half_even_of_int)
  have "x / u \<le> of_int (2 ^ 53)"
    using b(2) u by (simp add: hi pos_divide_le_eq)
  then have "round_half_even (x / u) \<le> round_half_even (of_int (2 ^ 53))"
    by (rule round_half_even_mono)
  then have r2: "round_half_even (x / u) \<le> 2 ^ 53"
    by (simp only: round_half_even_of_int)
  have f: "fl x = of_int (round_half_even (x / u)) * u"
    using assms by (simp add: fl_def Let_def u_def e_def)
  have q1: "(of_int (2 ^ 52) :: rat) \<le> of_int (round_half_even (x / u))"
    using r1 by (simp only: of_int_le_iff)
  have q2: "(of_int (round_half_even (x / u)) :: rat) \<le> of_int (2 ^ 53)"
    using r2 by (simp only: of_int_le_iff)
  have "of_int (2 ^ 52) * u \<le> of_int (round_half_even (x / u)) * u"
    by (rule mult_right_mono [OF q1 less_imp_le [OF u]])
  moreover have "of_int (round_half_even (x / u)) * u \<le> of_int (2 ^ 53) * u"
    by (rule mult_right_mono [OF q2 less_imp_le [OF u]])
  ultimately show ?thesis
    unfolding f e_def [symmetric] lo hi by simp
qed

lemma fl_mono_pos:
  assumes "0 < x" and "x \<le> y"
  shows "fl x \<le> fl y"
proof (cases "ilog2 x = ilog2 y")
  case True
  define u :: rat where "u = 2 powi (ilog2 y - 52)"
  have u: "0 < u" by (simp add: u_def ulp_pos)
  have "x / u \<le> y / u" using assms(2) u by (simp add: divide_right_mono)
  then have "round_half_even (x / u) \<le> round_half_even (y / u)"
    by (rule round_half_even_mono)
  then have "of_int (round_half_even (x / u)) * u \<le> of_int (round_half_even (y / u)) * u"
    using u by (intro mult_right_mono) simp_all
  then show ?thesis
    using assms True by (simp add: fl_def Let_def u_def)
next
  case False
  with ilog2_mono [OF assms] have "ilog2 x + 1 \<le> ilog2 y" by simp
  then have "(2::rat) powi (ilog2 x + 1) \<le> 2 powi (ilog2 y)" by (rule power_int_two_mono)
  moreover have "fl x \<le> 2 powi (ilog2 x + 1)" using fl_pos_bounds [OF assms(1)] by simp
  moreover have "2 powi (ilog2 y) \<le> fl y" using fl_pos_bounds [of y] assms by simp
  ultimately show ?thesis by simp
qed

lemma fl_pos: "0 < x \<Longrightarrow> 0 < fl x"
proof -
  assume "0 < x"
  then have "2 powi (ilog2 x) \<le> fl x" using fl_pos_bounds [of x] by simp
  moreover have "(0::rat) < 2 powi (ilog2 x)" by (rule ulp_pos)
  ultimately show ?thesis by (rule less_le_trans [rotated])
qed

lemma fl_mono: "x \<le> y \<Longrightarrow> fl x \<le> fl y"
proof -
  assume xy: "x \<le> y"
  consider "0 < x" | "x = 0" "y = 0" | "x = 0" "0 < y" | "x < 0" "0 < y" | "x < 0" "y = 0"
    | "x < 0" "y < 0"
    using xy by fastforce
  then show ?thesis
  proof cases
    case 1
    then show ?thesis using xy by (rule fl_mono_pos)
  next
    case 2
    then show ?thesis by simp
  next
    case 3
    then show ?thesis using fl_pos [of y] by (simp add: fl_zero)
  next
    case 4
    then have "0 < fl (- x)" "0 < fl y" by (simp_all add: fl_pos)
    then show ?thesis by (simp add: fl_minus)
  next
    case 5
    then have "0 < fl (- x)" by (simp add: fl_pos)
    then show ?thesis using 5 by (simp add: fl_minus fl_zero)
  next
    case 6
    then have "fl (- y) \<le> fl (- x)" using xy by (intro fl_mono_pos) simp_all
    then show ?thesis by (simp add: fl_minus)
  qed
qed

lemma round1_mono: "x \<le> y \<Longrightarrow> round1 x \<le> round1 y"
  unfolding round1_def
  by (intro fl_mono divide_right_mono) (simp_all add: round_half_even_mono)

lemma comprehension_pure:
  "\<forall>x \<in> set xs. p x = Inr (q x) \<and> (q x \<longrightarrow> f x = Inr (g x)) \<Longrightarrow>
   comprehension p f xs = Inr (map g (filter q xs))"
  by (induction xs) auto

lemma comprehension_cond_ok:
  "comprehension p f xs = Inr ys \<Longrightarrow> x \<in> set xs \<Longrightarrow> \<exists>b. p x = Inr b"
  by (induction xs arbitrary: ys) (auto split: sum.splits if_splits)

lemma is_significant_readable:
  "readable c \<Longrightarrow> is_significant c = Inr (significant c)"
  by (auto simp: readable_def is_significant_def significant_def getitem_def
           split: option.splits)

lemma is_significant_ok_readable:
  "is_significant c = Inr b \<Longrightarrow> readable c"
  by (auto simp: readable_def is_significant_def getitem_def split: option.splits if_splits)

lemma severity_significant:
  "significant c \<Longrightarrow> getitem ''severity'' (severity c) = Inr (severity_of c)"
  by (auto simp: significant_def severity_of_def getitem_def split: option.splits)

lemma overall_score_with_formula:
  assumes "list_all readable rs"
  shows "overall_score_with K rs = Inr (if rs = [] then 0 else spec_overall_score K rs)"
proof -
  from assms have "\<forall>c \<in> set rs. is_significant c = Inr (significant c) \<and> (significant c \<longrightarrow> Inr c = Inr c)"
    by (simp add: list_all_iff is_significant_readable)
  then have "comprehension is_significant Inr rs = Inr (map (\<lambda>c. c) (filter significant rs))"
    by (rule comprehension_pure)
  then have f: "comprehension is_significant Inr rs = Inr (filter significant rs)"
    by simp
  have "\<forall>c \<in> set (filter significant rs).
          Inr True = Inr ((\<lambda>c. True) c) \<and>
          ((\<lambda>c. True) c \<longrightarrow> getitem ''severity'' (severity c) = Inr (severity_of c))"
    by (simp add: severity_significant)
  then have "comprehension (\<lambda>c. Inr True) (\<lambda>c. getitem ''severity'' (severity c))
                  (filter significant rs)
                = Inr (map severity_of (filter (\<lambda>c. True) (filter significant rs)))"
    by (rule comprehension_pure)
  then have m: "comprehension (\<lambda>c. Inr True) (\<lambda>c. getitem ''severity'' (severity c))
                  (filter significant rs)
                = Inr (map severity_of (filter significant rs))"
    by simp
  show ?thesis
    by (simp add: overall_score_with_def f m spec_overall_score_def Let_def)
qed

lemma overall_score_with_readable:
  assumes "overall_score_with K rs = Inr a"
  shows "list_all readable rs"
proof (cases "rs = []")
  case True
  then show ?thesis by simp
next
  case False
  with assms obtain ys where "comprehension is_significant Inr rs = Inr ys"
    by (auto simp: overall_score_with_def split: sum.splits)
  then have "\<forall>c \<in> set rs. \<exists>b. is_significant c = Inr b"
    by (blast dest: comprehension_cond_ok)
  then show ?thesis
    by (auto simp: list_all_iff dest: is_significant_ok_readable)
qed

lemma sum_list_int_update:
  fixes xs :: "int list"
  shows "i < length xs \<Longrightarrow> sum_list (xs[i := y]) = sum_list xs - xs ! i + y"
proof (induction xs arbitrary: i)
  case Nil
  then show ?case by simp
next
  case (Cons x xs)
  then show ?case by (cases i) auto
qed

lemma sum_filter_as_map:
  "sum_list (map severity_of (filter significant rs))
   = sum_list (map (\<lambda>c. if significant c then severity_of c else 0) rs)"
  by (induction rs) auto

lemma spec_overall_score_mono:
  assumes K: "0 \<le> K" and i: "i < length rs"
    and p: "passed (rs ! i) = Some False" and s: "severity (rs ! i) = Some s"
    and s4: "4 \<le> s" and ss: "s \<le> s'"
  shows "spec_overall_score K (rs[i := (rs ! i)\<lparr>severity := Some s'\<rparr>]) \<le> spec_overall_score K rs"
proof -
  let ?g = "\<lambda>c. if significant c then severity_of c else 0"
  let ?c' = "(rs ! i)\<lparr>severity := Some s'\<rparr>"
  have old: "?g (rs ! i) = s" using p s s4 by (simp add: significant_def severity_of_def)
  have new: "?g ?c' = s'" using p s4 ss by (simp add: significant_def severity_of_def)
  have "sum_list (map ?g (rs[i := ?c'])) = sum_list ((map ?g rs)[i := ?g ?c'])"
    by (simp only: map_update)
  also have "\<dots> = sum_list (map ?g rs) - (map ?g rs) ! i + ?g ?c'"
    using i by (simp only: sum_list_int_update length_map)
  also have "\<dots> = sum_list (map ?g rs) - s + s'"
    using i old new by (simp only: nth_map)
  finally have "sum_list (map ?g rs) \<le> sum_list (map ?g (rs[i := ?c']))"
    using ss by simp
  then have le: "sum_list (map severity_of (filter significant rs))
             \<le> sum_list (map severity_of (filter significant (rs[i := ?c'])))"
    by (simp only: sum_filter_as_map)
  have "float_of_int (sum_list (map severity_of (filter significant rs)))
        \<le> float_of_int (sum_list (map severity_of (filter significant (rs[i := ?c']))))"
    unfolding float_of_int_def using le by (intro fl_mono) simp
  then have "float_mul (float_of_int (sum_list (map severity_of (filter significant rs)))) K
        \<le> float_mul (float_of_int
              (sum_list (map severity_of (filter significant (rs[i := ?c']))))) K"
    unfolding float_mul_def using K by (intro fl_mono mult_right_mono)
  then have "float_sub 100 (float_mul (float_of_int
                (sum_list (map severity_of (filter significant (rs[i := ?c']))))) K)
        \<le> float_sub 100
              (float_mul (float_of_int (sum_list (map severity_of (filter significant rs)))) K)"
    unfolding float_sub_def by (intro fl_mono) simp
  then show ?thesis
    unfolding spec_overall_score_def
    by (intro round1_mono) auto
qed

lemma coefficient_nonneg: "0 \<le> fl (77 / 100)"
  using fl_mono [of 0 "77 / 100"] by (simp add: fl_zero)

text \<open>
  Claim C1, as amended. On every sequence of results whose reads succeed (each has
  \<open>passed\<close>, and \<open>severity\<close> when it failed), the overall score is 0 when the sequence
  is empty; otherwise it is 100 minus K times the sum of the severities of the
  significant issues, clamped to [0, 100] and rounded to one decimal, computed in float
  arithmetic, where K is the float 0.77 in analysis.py and the float 1.2 in the copy
  c4.py.
\<close>

theorem calculate_overall_score_formula:
  assumes "list_all readable results"
  shows "calculate_overall_score results
           = Inr (if results = [] then 0 else spec_overall_score (fl (77 / 100)) results)
         \<and> calculate_overall_score_c4 results
           = Inr (if results = [] then 0 else spec_overall_score (fl (12 / 10)) results)"
  using assms
  by (simp add: calculate_overall_score_def calculate_overall_score_c4_def
                overall_score_with_formula)

text \<open>
  The witness has failures of severity 7 and 8: 15 times the float 0.77 is a float just
  below 11.55, so the score before rounding is just above 88.45 and the code returns 88.5.
\<close>

theorem calculate_overall_score_formula_witness:
  "list_all readable
     [\<lparr>check_name = Some ''Missing contact information'', passed = Some False,
       explanation = Some ''no email'', severity = Some 7, category = Some ''Content''\<rparr>,
      \<lparr>check_name = Some ''Missing key sections'', passed = Some False,
       explanation = Some ''no education'', severity = Some 8, category = Some ''Content''\<rparr>]
   \<and> calculate_overall_score
     [\<lparr>check_name = Some ''Missing contact information'', passed = Some False,
       explanation = Some ''no email'', severity = Some 7, category = Some ''Content''\<rparr>,
      \<lparr>check_name = Some ''Missing key sections'', passed = Some False,
       explanation = Some ''no education'', severity = Some 8, category = Some ''Content''\<rparr>]
     = Inr (885 / 10)
   \<and> calculate_overall_score_c4
     [\<lparr>check_name = Some ''Missing contact information'', passed = Some False,
       explanation = Some ''no email'', severity = Some 7, category = Some ''Content''\<rparr>,
      \<lparr>check_name = Some ''Missing key sections'', passed = Some False,
       explanation = Some ''no education'', severity = Some 8, category = Some ''Content''\<rparr>]
     = Inr 82"
proof -
  let ?rs = "[\<lparr>check_name = Some ''Missing contact information'', passed = Some False,
       explanation = Some ''no email'', severity = Some 7, category = Some ''Content''\<rparr>,
      \<lparr>check_name = Some ''Missing key sections'', passed = Some False,
       explanation = Some ''no education'', severity = Some 8, category = Some ''Content''\<rparr>]"
  have r: "list_all readable ?rs" by (simp add: readable_def)
  have a: "spec_overall_score (fl (77 / 100)) ?rs = 885 / 10" by code_simp
  have b: "spec_overall_score (fl (12 / 10)) ?rs = 82" by code_simp
  from calculate_overall_score_formula [OF r] r a b show ?thesis by simp
qed

text \<open>
  Claim C1, as stated, fails twice. On the empty sequence the formula gives 100, for every
  coefficient, and the code returns 0. On one failure of severity 9 the formula with the
  coefficient 1.0 gives 91, and the code, whose coefficient is 0.77, returns 93.1 (the
  float nearest to it).
\<close>

theorem calculate_overall_score_counterexample:
  "calculate_overall_score [] = Inr 0 \<and> spec_overall_score 1 [] = 100
   \<and> calculate_overall_score
       [\<lparr>check_name = Some ''Missing contact information'', passed = Some False,
         explanation = Some ''no email'', severity = Some 9, category = Some ''Content''\<rparr>]
     = Inr (fl (931 / 10))
   \<and> spec_overall_score 1
       [\<lparr>check_name = Some ''Missing contact information'', passed = Some False,
         explanation = Some ''no email'', severity = Some 9, category = Some ''Content''\<rparr>]
     = 91
   \<and> fl (931 / 10) \<noteq> 91"
  by code_simp

text \<open>
  Claim C9. When the overall score of a sequence is \<open>a\<close>, and the severity \<open>s\<close> of one
  of its significant results (failed, \<open>s \<ge> 4\<close>) is replaced by any \<open>s' \<ge> s\<close>, everything
  else fixed, the overall score of the new sequence exists and is at most \<open>a\<close>.
\<close>

theorem calculate_overall_score_monotone:
  assumes run: "calculate_overall_score rs = Inr a"
    and i: "i < length rs"
    and p: "passed (rs ! i) = Some False"
    and s: "severity (rs ! i) = Some s"
    and s4: "4 \<le> s"
    and ss: "s \<le> s'"
  shows "\<exists>b. calculate_overall_score (rs[i := (rs ! i)\<lparr>severity := Some s'\<rparr>]) = Inr b \<and> b \<le> a"
proof -
  let ?rs' = "rs[i := (rs ! i)\<lparr>severity := Some s'\<rparr>]"
  from run have r: "list_all readable rs"
    unfolding calculate_overall_score_def by (rule overall_score_with_readable)
  have "readable ((rs ! i)\<lparr>severity := Some s'\<rparr>)"
    using p by (simp add: readable_def)
  with r have r': "list_all readable ?rs'"
    by (auto simp: list_all_iff dest: subsetD [OF set_update_subset_insert])
  from i have ne: "rs \<noteq> []" "?rs' \<noteq> []" by auto
  have a: "a = spec_overall_score (fl (77 / 100)) rs"
    using run overall_score_with_formula [OF r, of "fl (77 / 100)"] ne
    by (simp add: calculate_overall_score_def)
  have b: "calculate_overall_score ?rs' = Inr (spec_overall_score (fl (77 / 100)) ?rs')"
    using overall_score_with_formula [OF r', of "fl (77 / 100)"] ne
    by (simp add: calculate_overall_score_def)
  have "spec_overall_score (fl (77 / 100)) ?rs' \<le> spec_overall_score (fl (77 / 100)) rs"
    using coefficient_nonneg i p s s4 ss by (rule spec_overall_score_mono)
  with a b show ?thesis by simp
qed

theorem calculate_overall_score_monotone_witness:
  "calculate_overall_score
     [\<lparr>check_name = Some ''Missing contact information'', passed = Some False,
       explanation = Some ''no email'', severity = Some 6, category = Some ''Content''\<rparr>]
     = Inr (fl (477 / 5))
   \<and> calculate_overall_score
     [\<lparr>check_name = Some ''Missing contact information'', passed = Some False,
       explanation = Some ''no email'', severity = Some 9, category = Some ''Content''\<rparr>]
     = Inr (fl (931 / 10))
   \<and> fl (931 / 10) \<le> fl (477 / 5)"
proof -
  let ?c = "\<lparr>check_name = Some ''Missing contact information'', passed = Some False,
       explanation = Some ''no email'', severity = Some 6, category = Some ''Content''\<rparr>"
  have run: "calculate_overall_score [?c] = Inr (fl (477 / 5))" by code_simp
  have new: "calculate_overall_score [?c\<lparr>severity := Some 9\<rparr>] = Inr (fl (931 / 10))"
    by code_simp
  from calculate_overall_score_monotone [OF run, of 0 6 9]
  obtain b where "calculate_overall_score ([?c][0 := ([?c] ! 0)\<lparr>severity := Some 9\<rparr>]) = Inr b"
    and "b \<le> fl (477 / 5)"
    by auto
  with run new show ?thesis by simp
qed

section \<open>Properties of the category scores\<close>

lemma copy_for_category_readable:
  "readable c \<Longrightarrow>
   copy_for_category c
     = Inr (if passed c = Some False \<and> \<not> significant c then c\<lparr>passed := Some True\<rparr> else c)"
  by (auto simp: copy_for_category_def is_significant_def significant_def readable_def
                 getitem_def split: option.splits)

lemma copy_for_category_normalized:
  "normalized c \<Longrightarrow> copy_for_category c = Inr c"
  by (auto simp: copy_for_category_readable normalized_def demoted_def significant_def
                 readable_def split: option.splits)

lemma dict_append_as_filter:
  "category x = Some k \<Longrightarrow>
   (if k \<in> set (map fst d) then dict_append k x d else d)
     = map (\<lambda>(k', cs). (k', cs @ filter (\<lambda>c. category c = Some k') [x])) d"
  by (induction d) (auto simp: dict_append_def)

lemma group_check_copy:
  assumes "copy_for_category c = Inr c'" and "category c' = Some k"
  shows "group_check d c
           = Inr (map (\<lambda>(k', cs). (k', cs @ filter (\<lambda>c. category c = Some k') [c'])) d)"
  using assms dict_append_as_filter [of c' k d]
  by (simp add: group_check_def getitem_def)

lemma group_checks_copies:
  assumes "\<forall>c \<in> set rs. copy_for_category c = Inr (h c) \<and> category (h c) \<noteq> None"
  shows "group_checks d rs
           = Inr (map (\<lambda>(k, cs). (k, cs @ filter (\<lambda>c. category c = Some k) (map h rs))) d)"
  using assms
proof (induction rs arbitrary: d)
  case Nil
  then show ?case by (simp add: case_prod_unfold)
next
  case (Cons r rs)
  from Cons.prems obtain k where c: "copy_for_category r = Inr (h r)" and k: "category (h r) = Some k"
    by auto
  have step: "group_check d r
      = Inr (map (\<lambda>(k', cs). (k', cs @ filter (\<lambda>c. category c = Some k') [h r])) d)"
    using c k by (rule group_check_copy)
  have rest: "\<forall>c \<in> set rs. copy_for_category c = Inr (h c) \<and> category (h c) \<noteq> None"
    using Cons.prems by simp
  show ?case
    by (simp add: step Cons.IH [OF rest] case_prod_unfold del: filter.simps)
       (simp add: case_prod_unfold)
qed

lemma category_score_formula:
  assumes "\<forall>c \<in> set checks. readable c"
  shows "category_score checks
     = Inr (if checks = [] then 100
            else round1 (max 0
              (float_sub
                 (float_mul 100
                    (int_truediv (int (length (filter (\<lambda>c. passed c = Some True) checks)))
                       (int (length checks))))
                 (float_mul
                    (float_of_int
                       (sum_list (map severity_of
                          (filter (\<lambda>c. passed c = Some False) checks))))
                    (int_truediv 10 (int (length checks)))))))"
proof -
  have "\<forall>c \<in> set checks.
          getitem ''passed'' (passed c) = Inr (passed c = Some True)
          \<and> (passed c = Some True \<longrightarrow> Inr (1::nat) = Inr ((\<lambda>c. 1) c))"
    using assms by (auto simp: readable_def getitem_def split: option.splits)
  then have ones: "comprehension (\<lambda>c. getitem ''passed'' (passed c)) (\<lambda>c. Inr (1::nat)) checks
           = Inr (map (\<lambda>c. 1) (filter (\<lambda>c. passed c = Some True) checks))"
    by (rule comprehension_pure)
  have "\<forall>c \<in> set checks.
          (case getitem ''passed'' (passed c) of Inl e \<Rightarrow> Inl e | Inr p \<Rightarrow> Inr (\<not> p))
            = Inr (passed c = Some False)
          \<and> (passed c = Some False \<longrightarrow> getitem ''severity'' (severity c) = Inr (severity_of c))"
    using assms by (auto simp: readable_def getitem_def severity_of_def split: option.splits)
  then have sevs: "comprehension
           (\<lambda>c. case getitem ''passed'' (passed c) of Inl e \<Rightarrow> Inl e | Inr p \<Rightarrow> Inr (\<not> p))
           (\<lambda>c. getitem ''severity'' (severity c)) checks
           = Inr (map severity_of (filter (\<lambda>c. passed c = Some False) checks))"
    by (rule comprehension_pure)
  have len: "sum_list (map (\<lambda>c. Suc 0) xs) = length xs" for xs :: "check list"
    by (induction xs) auto
  show ?thesis
    unfolding category_score_def ones sevs
    by (simp add: len Let_def)
qed

lemma calculate_category_scores_pure:
  assumes "\<forall>c \<in> set rs. copy_for_category c = Inr (h c) \<and> category (h c) \<noteq> None \<and> readable (h c)"
  shows "calculate_category_scores rs
     = Inr (map (\<lambda>C. (C, spec_category_score C (map h rs)))
              [''Content'', ''Format'', ''Consistency'', ''Relevance'', ''Credibility''])"
proof -
  from assms have "\<forall>c \<in> set rs. copy_for_category c = Inr (h c) \<and> category (h c) \<noteq> None"
    by blast
  then have g: "group_checks categories rs
    = Inr (map (\<lambda>(k, cs). (k, cs @ filter (\<lambda>c. category c = Some k) (map h rs))) categories)"
    by (rule group_checks_copies)
  have sc: "category_score (filter (\<lambda>c. category c = Some C) (map h rs))
              = Inr (spec_category_score C (map h rs))" for C
  proof -
    have "\<forall>c \<in> set (filter (\<lambda>c. category c = Some C) (map h rs)). readable c"
      using assms by auto
    then show ?thesis
      by (simp only: category_score_formula spec_category_score_def Let_def)
  qed
  show ?thesis
    unfolding calculate_category_scores_def g
    by (simp add: categories_def sc del: filter.simps)
qed

text \<open>
  Claim C2. On every sequence of normalized results that carry a category, the category
  scores are those of the five fixed categories, in the order of the dict, and the score
  of each category \<open>C\<close> is the specification's: 100 when no result has category \<open>C\<close>,
  otherwise \<open>max(0, 100 \<times> pass_rate - severity_sum \<times> (10 / count))\<close> rounded to one
  decimal, over the results of category \<open>C\<close> alone. A result of any other category
  enters no score and raises nothing.
\<close>

theorem calculate_category_scores_formula:
  assumes "list_all normalized results"
    and "list_all (\<lambda>c. category c \<noteq> None) results"
  shows "calculate_category_scores results
     = Inr (map (\<lambda>C. (C, spec_category_score C results))
              [''Content'', ''Format'', ''Consistency'', ''Relevance'', ''Credibility''])"
proof -
  have "\<forall>c \<in> set results.
          copy_for_category c = Inr ((\<lambda>c. c) c) \<and> category ((\<lambda>c. c) c) \<noteq> None
          \<and> readable ((\<lambda>c. c) c)"
    using assms by (simp add: list_all_iff copy_for_category_normalized normalized_def)
  then have "calculate_category_scores results
     = Inr (map (\<lambda>C. (C, spec_category_score C (map (\<lambda>c. c) results)))
              [''Content'', ''Format'', ''Consistency'', ''Relevance'', ''Credibility''])"
    by (rule calculate_category_scores_pure)
  then show ?thesis by simp
qed

text \<open>
  The witness has 24 results in Content, 22 passed and two failed with severities 9 and
  10, and a failed result of another category: 10 / 24 is not a float, and the code
  returns 83.7 (the float nearest to it) for Content.
\<close>

theorem calculate_category_scores_formula_witness:
  "calculate_category_scores
     (replicate 22
        \<lparr>check_name = Some ''Grammar or spelling mistakes'', passed = Some True,
         explanation = Some '''', severity = Some 0, category = Some ''Content''\<rparr>
      @ [\<lparr>check_name = Some ''Missing contact information'', passed = Some False,
          explanation = Some ''no email'', severity = Some 9, category = Some ''Content''\<rparr>,
         \<lparr>check_name = Some ''Missing key sections'', passed = Some False,
          explanation = Some ''no education'', severity = Some 10,
          category = Some ''Content''\<rparr>,
         \<lparr>check_name = Some ''Use of outdated technologies'', passed = Some False,
          explanation = Some ''flash'', severity = Some 7, category = Some ''Technology''\<rparr>])
   = Inr [(''Content'', fl (837 / 10)), (''Format'', 100), (''Consistency'', 100),
          (''Relevance'', 100), (''Credibility'', 100)]"
proof -
  let ?p = "\<lparr>check_name = Some ''Grammar or spelling mistakes'', passed = Some True,
         explanation = Some '''', severity = Some 0, category = Some ''Content''\<rparr>"
  let ?fs = "[\<lparr>check_name = Some ''Missing contact information'', passed = Some False,
          explanation = Some ''no email'', severity = Some 9, category = Some ''Content''\<rparr>,
         \<lparr>check_name = Some ''Missing key sections'', passed = Some False,
          explanation = Some ''no education'', severity = Some 10,
          category = Some ''Content''\<rparr>,
         \<lparr>check_name = Some ''Use of outdated technologies'', passed = Some False,
          explanation = Some ''flash'', severity = Some 7, category = Some ''Technology''\<rparr>]"
  let ?rs = "replicate 22 ?p @ ?fs"
  have n: "list_all normalized ?rs"
    by (simp add: normalized_def readable_def demoted_def list_all_iff)
  have c: "list_all (\<lambda>c. category c \<noteq> None) ?rs"
    by (simp add: list_all_iff)
  have s1: "spec_category_score ''Content'' ?rs = fl (837 / 10)" by code_simp
  have s2: "spec_category_score ''Format'' ?rs = 100" by code_simp
  have s3: "spec_category_score ''Consistency'' ?rs = 100" by code_simp
  have s4: "spec_category_score ''Relevance'' ?rs = 100" by code_simp
  have s5: "spec_category_score ''Credibility'' ?rs = 100" by code_simp
  show ?thesis
    unfolding calculate_category_scores_formula [OF n c]
    by (simp only: list.map s1 s2 s3 s4 s5)
qed

section \<open>Properties of the insights\<close>

lemma well_formed_readable: "well_formed c \<Longrightarrow> readable c"
  by (auto simp: well_formed_def readable_def split: option.splits)

lemma significant_results_well_formed:
  assumes "list_all well_formed rs"
  shows "comprehension is_significant Inr rs = Inr (filter significant rs)"
proof -
  from assms have "\<forall>c \<in> set rs. is_significant c = Inr (significant c)
                     \<and> (significant c \<longrightarrow> Inr c = Inr ((\<lambda>c. c) c))"
    by (simp add: list_all_iff is_significant_readable well_formed_readable)
  then have "comprehension is_significant Inr rs = Inr (map (\<lambda>c. c) (filter significant rs))"
    by (rule comprehension_pure)
  then show ?thesis by simp
qed

lemma check_item_well_formed:
  "well_formed c \<Longrightarrow> check_item c = Inr (name_of c @ '': '' @ explanation_of c)"
  by (auto simp: well_formed_def check_item_def getitem_def name_of_def explanation_of_def)

lemma check_items_well_formed:
  assumes "list_all well_formed xs"
  shows "comprehension (\<lambda>c. Inr True) check_item xs
           = Inr (map (\<lambda>c. name_of c @ '': '' @ explanation_of c) xs)"
proof -
  from assms have "\<forall>c \<in> set xs. Inr True = Inr ((\<lambda>c. True) c)
      \<and> ((\<lambda>c. True) c \<longrightarrow> check_item c = Inr (name_of c @ '': '' @ explanation_of c))"
    by (simp add: list_all_iff check_item_well_formed)
  then have "comprehension (\<lambda>c. Inr True) check_item xs
           = Inr (map (\<lambda>c. name_of c @ '': '' @ explanation_of c) (filter (\<lambda>c. True) xs))"
    by (rule comprehension_pure)
  then show ?thesis by simp
qed

lemma deal_breakers_well_formed:
  assumes "list_all well_formed xs"
  shows "comprehension severity_at_least_8 Inr xs = Inr (filter (\<lambda>c. 8 \<le> severity_of c) xs)"
proof -
  from assms have "\<forall>c \<in> set xs. severity_at_least_8 c = Inr (8 \<le> severity_of c)
      \<and> (8 \<le> severity_of c \<longrightarrow> Inr c = Inr ((\<lambda>c. c) c))"
    by (auto simp: list_all_iff well_formed_def severity_at_least_8_def getitem_def severity_of_def)
  then have "comprehension severity_at_least_8 Inr xs
      = Inr (map (\<lambda>c. c) (filter (\<lambda>c. 8 \<le> severity_of c) xs))"
    by (rule comprehension_pure)
  then show ?thesis by simp
qed

lemma red_flags_well_formed:
  assumes "list_all well_formed xs"
  shows "comprehension severity_4_to_7 Inr xs
           = Inr (filter (\<lambda>c. 4 \<le> severity_of c \<and> severity_of c < 8) xs)"
proof -
  from assms have "\<forall>c \<in> set xs.
        severity_4_to_7 c = Inr (4 \<le> severity_of c \<and> severity_of c < 8)
      \<and> (4 \<le> severity_of c \<and> severity_of c < 8 \<longrightarrow> Inr c = Inr ((\<lambda>c. c) c))"
    by (auto simp: list_all_iff well_formed_def severity_4_to_7_def getitem_def severity_of_def)
  then have "comprehension severity_4_to_7 Inr xs
      = Inr (map (\<lambda>c. c) (filter (\<lambda>c. 4 \<le> severity_of c \<and> severity_of c < 8) xs))"
    by (rule comprehension_pure)
  then show ?thesis by simp
qed

lemma critical_insight_well_formed:
  assumes "list_all well_formed xs"
  shows "\<exists>cr. critical_insight xs = Inr cr \<and> list_all (\<lambda>g. insight_type g = ''critical'') cr"
proof -
  have "list_all well_formed (filter (\<lambda>c. 8 \<le> severity_of c) xs)"
    using assms by (simp add: list_all_iff)
  then show ?thesis
    by (simp add: critical_insight_def deal_breakers_well_formed [OF assms]
                  check_items_well_formed)
qed

lemma warning_insight_well_formed:
  assumes "list_all well_formed xs"
  shows "\<exists>w. warning_insight xs = Inr w \<and> list_all (\<lambda>g. insight_type g = ''warning'') w"
proof -
  have "list_all well_formed (filter (\<lambda>c. 4 \<le> severity_of c \<and> severity_of c < 8) xs)"
    using assms by (simp add: list_all_iff)
  then show ?thesis
    by (simp add: warning_insight_def red_flags_well_formed [OF assms]
                  check_items_well_formed)
qed

lemma strength_insight_type:
  "list_all (\<lambda>g. insight_type g = ''strength'') (strength_insight st)"
  by (simp add: strength_insight_def Let_def)

lemma interview_question_well_formed:
  "well_formed c \<Longrightarrow>
   interview_question c
     = Inr (if name_of c \<in> set canonical_interview_names
            then [interview_template (name_of c) (explanation_of c)] else [])"
  by (auto simp: well_formed_def interview_question_def getitem_def name_of_def
                 explanation_of_def canonical_interview_names_def interview_template_def)

lemma interview_questions_well_formed:
  "list_all well_formed xs \<Longrightarrow>
   interview_questions xs
     = Inr (map (\<lambda>c. interview_template (name_of c) (explanation_of c))
              (filter (\<lambda>c. name_of c \<in> set canonical_interview_names) xs))"
  by (induction xs) (simp_all add: interview_question_well_formed)

lemma interview_insight_well_formed:
  assumes "list_all well_formed rs"
  shows "interview_insight (filter significant rs)
     = Inr (if spec_interview_items rs = [] then []
            else [\<lparr>insight_type = ''interview'',
                    title = ''Suggested Interview Questions'',
                    description = ''Based on resume anomalies, consider asking:'',
                    items = spec_interview_items rs\<rparr>])"
proof -
  have wf: "list_all well_formed (filter significant rs)"
    using assms by (simp add: list_all_iff)
  have "interview_questions (filter significant rs) = Inr (spec_interview_items rs)"
    unfolding interview_questions_well_formed [OF wf] spec_interview_items_def
    by (simp add: conj_commute)
  then show ?thesis
    by (simp add: interview_insight_def)
qed

lemma filter_none: "list_all (\<lambda>g. \<not> P g) xs \<Longrightarrow> filter P xs = []"
  by (induction xs) auto

text \<open>
  Claim C6. On every sequence of results that have all their fields, the insights are
  produced, and their interview group has exactly one item for each significant result
  (failed, severity at least 4) whose name is one of the three canonical names, in input
  order, each item the fixed template of that name around the explanation of the result.
  A significant result of any other name gives no item, and without items there is no
  interview group.
\<close>

theorem interview_group_items:
  assumes "list_all well_formed results"
  shows "\<exists>ins. generate_recruiter_insights results st = Inr ins
     \<and> filter (\<lambda>g. insight_type g = ''interview'') ins
       = (if spec_interview_items results = [] then []
          else [\<lparr>insight_type = ''interview'',
                  title = ''Suggested Interview Questions'',
                  description = ''Based on resume anomalies, consider asking:'',
                  items = spec_interview_items results\<rparr>])"
proof -
  have sig: "comprehension is_significant Inr results = Inr (filter significant results)"
    using assms by (rule significant_results_well_formed)
  have wf: "list_all well_formed (filter significant results)"
    using assms by (simp add: list_all_iff)
  from critical_insight_well_formed [OF wf] obtain cr where
    cr: "critical_insight (filter significant results) = Inr cr"
    and crt: "list_all (\<lambda>g. insight_type g = ''critical'') cr" by blast
  from warning_insight_well_formed [OF wf] obtain w where
    w: "warning_insight (filter significant results) = Inr w"
    and wt: "list_all (\<lambda>g. insight_type g = ''warning'') w" by blast
  have f1: "filter (\<lambda>g. insight_type g = ''interview'') cr = []"
    using crt by (intro filter_none) (auto simp: list_all_iff)
  have f2: "filter (\<lambda>g. insight_type g = ''interview'') w = []"
    using wt by (intro filter_none) (auto simp: list_all_iff)
  have f3: "filter (\<lambda>g. insight_type g = ''interview'') (strength_insight st) = []"
    using strength_insight_type [of st] by (intro filter_none) (auto simp: list_all_iff)
  show ?thesis
    by (simp add: generate_recruiter_insights_def sig cr w
                  interview_insight_well_formed [OF assms] f1 f2 f3)
qed

lemma critical_insight_type:
  "critical_insight xs = Inr cr \<Longrightarrow> list_all (\<lambda>g. insight_type g = ''critical'') cr"
  by (auto simp: critical_insight_def split: sum.splits if_splits)

lemma warning_insight_type:
  "warning_insight xs = Inr w \<Longrightarrow> list_all (\<lambda>g. insight_type g = ''warning'') w"
  by (auto simp: warning_insight_def split: sum.splits if_splits)

lemma interview_insight_type:
  "interview_insight xs = Inr iv \<Longrightarrow> list_all (\<lambda>g. insight_type g = ''interview'') iv"
  by (auto simp: interview_insight_def split: sum.splits if_splits)

lemma wow_factor_items_standout:
  "truthy v \<Longrightarrow> wow_factor_items v = [''Standout feature: '' @ spec_standout v]"
  by (cases v) (auto simp: wow_factor_items_def Let_def hd_conv_nth)

lemma strength_insight_standout:
  assumes "wow_factor st = Some v" and "truthy v"
  shows "\<exists>g. strength_insight st = [g] \<and> insight_type g = ''strength''
             \<and> items g \<noteq> [] \<and> last (items g) = ''Standout feature: '' @ spec_standout v"
  using assms by (simp add: strength_insight_def Let_def wow_factor_items_standout)

text \<open>
  Claim C7. Whenever the insights are produced and \<^verbatim>\<open>wow_factor\<close> is a non-empty
  list or a non-empty string, there is exactly one strength insight and its last item is
  \<open>Standout feature:\<close> followed by: for a list of more than one element, all elements
  but the last joined with comma and space, then \<open>, and\<close> and the last element; for a
  list of one element, that element; for a string, the string itself.
\<close>

theorem standout_feature_item:
  assumes run: "generate_recruiter_insights results st = Inr ins"
    and wow: "wow_factor st = Some v"
    and v: "truthy v"
  shows "\<exists>g. filter (\<lambda>g. insight_type g = ''strength'') ins = [g]
             \<and> items g \<noteq> []
             \<and> last (items g) = ''Standout feature: '' @ spec_standout v"
proof -
  from run obtain sig cr w iv where
    cr: "critical_insight sig = Inr cr" and w: "warning_insight sig = Inr w"
    and iv: "interview_insight sig = Inr iv"
    and ins: "ins = cr @ w @ strength_insight st @ iv"
    by (auto simp: generate_recruiter_insights_def split: sum.splits)
  have f1: "filter (\<lambda>g. insight_type g = ''strength'') cr = []"
    using critical_insight_type [OF cr] by (intro filter_none) (auto simp: list_all_iff)
  have f2: "filter (\<lambda>g. insight_type g = ''strength'') w = []"
    using warning_insight_type [OF w] by (intro filter_none) (auto simp: list_all_iff)
  have f3: "filter (\<lambda>g. insight_type g = ''strength'') iv = []"
    using interview_insight_type [OF iv] by (intro filter_none) (auto simp: list_all_iff)
  from strength_insight_standout [OF wow v] obtain g where
    g: "strength_insight st = [g]" "insight_type g = ''strength''"
       "items g \<noteq> []" "last (items g) = ''Standout feature: '' @ spec_standout v"
    by blast
  show ?thesis
    by (simp add: ins f1 f2 f3 g)
qed

theorem standout_feature_item_witness:
  "generate_recruiter_insights []
     \<lparr>top_skills = Some (Lst [''Python'', ''SQL'']),
      wow_factor = Some (Lst [''Patent A'', ''Patent B'', ''Patent C''])\<rparr>
   = Inr [\<lparr>insight_type = ''strength'', title = ''Resume Strengths'',
           description = ''Key strengths identified in this candidate's resume:'',
           items = [''Top skills: Python, SQL'',
                    ''Standout feature: Patent A, Patent B, and Patent C'']\<rparr>]
   \<and> truthy (Lst [''Patent A'', ''Patent B'', ''Patent C''])
   \<and> ''Standout feature: '' @ spec_standout (Lst [''Patent A'', ''Patent B'', ''Patent C''])
       = ''Standout feature: Patent A, Patent B, and Patent C''"
proof -
  let ?st = "\<lparr>top_skills = Some (Lst [''Python'', ''SQL'']),
      wow_factor = Some (Lst [''Patent A'', ''Patent B'', ''Patent C''])\<rparr>"
  let ?g = "\<lparr>insight_type = ''strength'', title = ''Resume Strengths'',
           description = ''Key strengths identified in this candidate's resume:'',
           items = [''Top skills: Python, SQL'',
                    ''Standout feature: Patent A, Patent B, and Patent C'']\<rparr>"
  have run: "generate_recruiter_insights [] ?st = Inr [?g]"
    by (simp add: generate_recruiter_insights_def critical_insight_def warning_insight_def
                  interview_insight_def strength_insight_def top_skills_items_def
                  wow_factor_items_def Let_def)
  have wow: "wow_factor ?st = Some (Lst [''Patent A'', ''Patent B'', ''Patent C''])" by simp
  have v: "truthy (Lst [''Patent A'', ''Patent B'', ''Patent C''])" by simp
  from standout_feature_item [OF run wow v] run v show ?thesis by simp
qed

text \<open>
  Claim C5. For the empty sequence of results the overall score is 0, each of the five
  category scores is 100, and the insights hold strength groups only; a strength group is
  there if and only if \<open>top_skills\<close> or \<open>wow_factor\<close> is present and not empty, so only
  if the strengths record is not empty.
\<close>

theorem empty_result_set:
  "calculate_overall_score [] = Inr 0
   \<and> calculate_category_scores []
       = Inr [(''Content'', 100), (''Format'', 100), (''Consistency'', 100),
              (''Relevance'', 100), (''Credibility'', 100)]
   \<and> (\<exists>ins. generate_recruiter_insights [] st = Inr ins
         \<and> list_all (\<lambda>g. insight_type g = ''strength'') ins
         \<and> (ins \<noteq> [] \<longleftrightarrow>
              (\<exists>v. top_skills st = Some v \<and> truthy v)
              \<or> (\<exists>v. wow_factor st = Some v \<and> truthy v)))"
proof (intro conjI)
  show "calculate_overall_score [] = Inr 0"
    by (simp add: calculate_overall_score_def overall_score_with_def)
  show "calculate_category_scores []
       = Inr [(''Content'', 100), (''Format'', 100), (''Consistency'', 100),
              (''Relevance'', 100), (''Credibility'', 100)]"
    by (simp add: calculate_category_scores_def categories_def category_score_def)
  have run: "generate_recruiter_insights [] st = Inr (strength_insight st)"
    by (simp add: generate_recruiter_insights_def critical_insight_def warning_insight_def
                  interview_insight_def)
  have "strength_insight st \<noteq> [] \<longleftrightarrow>
          (\<exists>v. top_skills st = Some v \<and> truthy v) \<or> (\<exists>v. wow_factor st = Some v \<and> truthy v)"
    by (auto simp: strength_insight_def Let_def split: option.splits)
  with run strength_insight_type [of st]
  show "\<exists>ins. generate_recruiter_insights [] st = Inr ins
         \<and> list_all (\<lambda>g. insight_type g = ''strength'') ins
         \<and> (ins \<noteq> [] \<longleftrightarrow>
              (\<exists>v. top_skills st = Some v \<and> truthy v)
              \<or> (\<exists>v. wow_factor st = Some v \<and> truthy v))"
    by simp
qed

text \<open>
  The witness has a strengths record with one skill, which gives a strength group, and
  two records without a group: the one with both keys present and empty, and the empty
  one.
\<close>

theorem empty_result_set_witness:
  "generate_recruiter_insights [] \<lparr>top_skills = Some (Str ''Python''), wow_factor = None\<rparr>
     = Inr [\<lparr>insight_type = ''strength'', title = ''Resume Strengths'',
             description = ''Key strengths identified in this candidate's resume:'',
             items = [''Top skills: Python'']\<rparr>]
   \<and> truthy (Str ''Python'')
   \<and> generate_recruiter_insights []
        \<lparr>top_skills = Some (Lst []), wow_factor = Some (Str '''')\<rparr> = Inr []
   \<and> generate_recruiter_insights [] \<lparr>top_skills = None, wow_factor = None\<rparr> = Inr []"
proof -
  let ?st = "\<lparr>top_skills = Some (Str ''Python''), wow_factor = None\<rparr>"
  let ?e = "\<lparr>top_skills = Some (Lst []), wow_factor = Some (Str '''')\<rparr>"
  have run: "generate_recruiter_insights [] ?st
     = Inr [\<lparr>insight_type = ''strength'', title = ''Resume Strengths'',
             description = ''Key strengths identified in this candidate's resume:'',
             items = [''Top skills: Python'']\<rparr>]"
    by (simp add: generate_recruiter_insights_def critical_insight_def warning_insight_def
                  interview_insight_def strength_insight_def top_skills_items_def
                  wow_factor_items_def Let_def)
  have none: "generate_recruiter_insights [] \<lparr>top_skills = None, wow_factor = None\<rparr> = Inr []"
    by (simp add: generate_recruiter_insights_def critical_insight_def warning_insight_def
                  interview_insight_def strength_insight_def Let_def)
  from empty_result_set [of ?e] have "generate_recruiter_insights [] ?e = Inr []"
    by auto
  with empty_result_set [of ?st] run none show ?thesis by simp
qed

theorem interview_group_items_witness:
  "list_all well_formed
     [\<lparr>check_name = Some ''Unexplained employment gaps'', passed = Some False,
       explanation = Some ''2019 to 2021'', severity = Some 6,
       category = Some ''Consistency''\<rparr>,
      \<lparr>check_name = Some ''Role-skill mismatch'', passed = Some False,
       explanation = Some ''no data tools'', severity = Some 6,
       category = Some ''Relevance''\<rparr>]
   \<and> (\<exists>ins. generate_recruiter_insights
        [\<lparr>check_name = Some ''Unexplained employment gaps'', passed = Some False,
          explanation = Some ''2019 to 2021'', severity = Some 6,
          category = Some ''Consistency''\<rparr>,
         \<lparr>check_name = Some ''Role-skill mismatch'', passed = Some False,
          explanation = Some ''no data tools'', severity = Some 6,
          category = Some ''Relevance''\<rparr>]
        \<lparr>top_skills = None, wow_factor = None\<rparr> = Inr ins
      \<and> filter (\<lambda>g. insight_type g = ''interview'') ins
        = [\<lparr>insight_type = ''interview'', title = ''Suggested Interview Questions'',
             description = ''Based on resume anomalies, consider asking:'',
             items = [''Ask about the gap between positions: '' @ [CHR 0x22]
                      @ ''2019 to 2021'' @ [CHR 0x22]]\<rparr>])"
proof -
  let ?rs = "[\<lparr>check_name = Some ''Unexplained employment gaps'', passed = Some False,
       explanation = Some ''2019 to 2021'', severity = Some 6,
       category = Some ''Consistency''\<rparr>,
      \<lparr>check_name = Some ''Role-skill mismatch'', passed = Some False,
       explanation = Some ''no data tools'', severity = Some 6,
       category = Some ''Relevance''\<rparr>]"
  have wf: "list_all well_formed ?rs" by (simp add: well_formed_def)
  have its: "spec_interview_items ?rs
     = [''Ask about the gap between positions: '' @ [CHR 0x22] @ ''2019 to 2021'' @ [CHR 0x22]]"
    by (simp add: spec_interview_items_def significant_def name_of_def explanation_of_def
                  canonical_interview_names_def interview_template_def quoted_def)
  from interview_group_items [OF wf, of "\<lparr>top_skills = None, wow_factor = None\<rparr>"]
    wf its
  show ?thesis by simp
qed

section \<open>Missing fields\<close>

lemma normalize_result_readable:
  "readable r \<Longrightarrow> \<exists>r'. normalize_result r = Inr r'"
  by (auto simp: readable_def normalize_result_def getitem_def split: option.splits)

lemma normalize_result_unreadable:
  "\<not> readable r \<Longrightarrow>
   normalize_result r = Inl (KeyError (if passed r = None then ''passed'' else ''severity''))"
  by (auto simp: readable_def normalize_result_def getitem_def split: option.splits)

lemma normalize_results_first_unreadable:
  "case find (\<lambda>r. \<not> readable r) results of
     None \<Rightarrow> (\<exists>results'. normalize_results results = Inr results')
   | Some r \<Rightarrow>
       normalize_results results
         = Inl (KeyError (if passed r = None then ''passed'' else ''severity''))"
proof (induction results)
  case Nil
  then show ?case by simp
next
  case (Cons r rs)
  show ?case
  proof (cases "readable r")
    case True
    then obtain r' where "normalize_result r = Inr r'"
      using normalize_result_readable by blast
    with True Cons.IH show ?thesis
      by (auto split: option.splits)
  next
    case False
    then show ?thesis
      by (simp add: normalize_result_unreadable)
  qed
qed

text \<open>
  Claim C4, as amended. Normalization fails exactly when some record cannot be read, that
  is, lacks \<open>passed\<close>, or has \<open>passed = false\<close> and lacks \<open>severity\<close>. It then raises
  \<open>KeyError\<close> for the key missing in the first such record, the error reaches the
  caller, and the analysis step produces no score and no insight. A record with
  \<open>passed = true\<close> and no \<open>severity\<close> is read without error.
\<close>

theorem normalization_key_errors:
  "case find (\<lambda>r. \<not> readable r) results of
     None \<Rightarrow> (\<exists>results'. normalize_results results = Inr results')
   | Some r \<Rightarrow>
       normalize_results results
         = Inl (KeyError (if passed r = None then ''passed'' else ''severity''))
       \<and> main_analysis results st
         = Inl (KeyError (if passed r = None then ''passed'' else ''severity''))"
  using normalize_results_first_unreadable [of results]
  by (auto simp: main_analysis_def split: option.splits)

theorem normalization_key_errors_witness:
  "normalize_results
     [\<lparr>check_name = Some ''Repeated phrases'', passed = Some True,
       explanation = Some '''', severity = Some 0, category = Some ''Content''\<rparr>,
      \<lparr>check_name = Some ''Missing key sections'', passed = Some False,
       explanation = Some ''no education'', severity = None, category = Some ''Content''\<rparr>]
     = Inl (KeyError ''severity'')
   \<and> main_analysis
     [\<lparr>check_name = Some ''Repeated phrases'', passed = Some True,
       explanation = Some '''', severity = Some 0, category = Some ''Content''\<rparr>,
      \<lparr>check_name = Some ''Missing key sections'', passed = Some False,
       explanation = Some ''no education'', severity = None, category = Some ''Content''\<rparr>]
     \<lparr>top_skills = None, wow_factor = None\<rparr>
     = Inl (KeyError ''severity'')"
  using normalization_key_errors
    [of "[\<lparr>check_name = Some ''Repeated phrases'', passed = Some True,
       explanation = Some '''', severity = Some 0, category = Some ''Content''\<rparr>,
      \<lparr>check_name = Some ''Missing key sections'', passed = Some False,
       explanation = Some ''no education'', severity = None, category = Some ''Content''\<rparr>]"
        "\<lparr>top_skills = None, wow_factor = None\<rparr>"]
  by (simp add: readable_def)

text \<open>
  Claim C4, as stated, fails: a record that passed and has no \<open>severity\<close> goes through
  normalization unchanged, and the analysis step computes scores from it.
\<close>

theorem missing_severity_accepted_counterexample:
  "normalize_results
     [\<lparr>check_name = Some ''Repeated phrases'', passed = Some True,
       explanation = Some '''', severity = None, category = Some ''Content''\<rparr>]
   = Inr [\<lparr>check_name = Some ''Repeated phrases'', passed = Some True,
       explanation = Some '''', severity = None, category = Some ''Content''\<rparr>]
   \<and> main_analysis
     [\<lparr>check_name = Some ''Repeated phrases'', passed = Some True,
       explanation = Some '''', severity = None, category = Some ''Content''\<rparr>]
     \<lparr>top_skills = None, wow_factor = None\<rparr>
   = Inr ([\<lparr>check_name = Some ''Repeated phrases'', passed = Some True,
            explanation = Some '''', severity = None, category = Some ''Content''\<rparr>],
          100,
          [(''Content'', 100), (''Format'', 100), (''Consistency'', 100),
           (''Relevance'', 100), (''Credibility'', 100)],
          [])"
  by code_simp

section \<open>The input of the category scores is not changed\<close>

lemma group_check_heap_eq:
  "group_check_heap h d a =
     (case is_significant (h ! a) of
        Inl e \<Rightarrow> (h, Inl e)
      | Inr sig \<Rightarrow>
          (case copy_for_category (h ! a) of
             Inl e \<Rightarrow> (h @ [h ! a], Inl e)
           | Inr c' \<Rightarrow>
               (h @ [c'],
                case getitem ''category'' (category c') of
                  Inl e \<Rightarrow> Inl e
                | Inr k \<Rightarrow> Inr (if k \<in> set (map fst d)
                                then dict_append k (length h) d else d))))"
  by (auto simp: group_check_heap_def copy_for_category_def Let_def
           split: sum.splits)

lemma deref_keys: "map fst (deref h d) = map fst d"
  by (induction d) (auto simp: deref_def)

lemma deref_extend: "valid_refs h d \<Longrightarrow> deref (h @ ext) d = deref h d"
  by (induction d) (auto simp: deref_def valid_refs_def nth_append)

lemma valid_refs_extend: "valid_refs h d \<Longrightarrow> valid_refs (h @ ext) d"
  by (fastforce simp: valid_refs_def)

lemma deref_dict_append:
  "valid_refs h d \<Longrightarrow>
   deref (h @ [c]) (dict_append k (length h) d) = dict_append k c (deref h d)"
  by (induction d) (auto simp: deref_def dict_append_def valid_refs_def nth_append)

lemma valid_refs_dict_append:
  "valid_refs h d \<Longrightarrow> valid_refs (h @ [c]) (dict_append k (length h) d)"
  by (induction d) (auto simp: dict_append_def valid_refs_def less_Suc_eq split: if_splits)

lemma group_check_heap_refines:
  assumes "valid_refs h d"
  shows "case group_check_heap h d a of
           (h', r) \<Rightarrow>
             (\<exists>ext. h' = h @ ext) \<and>
             (case r of
                Inl e \<Rightarrow> group_check (deref h d) (h ! a) = Inl e
              | Inr d' \<Rightarrow> group_check (deref h d) (h ! a) = Inr (deref h' d')
                           \<and> valid_refs h' d')"
  using assms
  by (auto simp: group_check_heap_eq group_check_def copy_for_category_def deref_keys
                 deref_dict_append deref_extend valid_refs_dict_append valid_refs_extend
           split: sum.splits)

lemma group_checks_heap_refines:
  assumes "valid_refs h d" and "\<forall>a \<in> set refs. a < length h"
  shows "case group_checks_heap h d refs of
           (h', r) \<Rightarrow>
             (\<exists>ext. h' = h @ ext) \<and>
             (case r of
                Inl e \<Rightarrow> group_checks (deref h d) (map (\<lambda>a. h ! a) refs) = Inl e
              | Inr d' \<Rightarrow> group_checks (deref h d) (map (\<lambda>a. h ! a) refs) = Inr (deref h' d'))"
  using assms
proof (induction refs arbitrary: h d)
  case Nil
  then show ?case by simp
next
  case (Cons a refs)
  obtain h1 r1 where step: "group_check_heap h d a = (h1, r1)"
    by (cases "group_check_heap h d a")
  from group_check_heap_refines [OF Cons.prems(1), of a] step
  obtain ext where h1: "h1 = h @ ext"
    and r1: "case r1 of
               Inl e \<Rightarrow> group_check (deref h d) (h ! a) = Inl e
             | Inr d' \<Rightarrow> group_check (deref h d) (h ! a) = Inr (deref h1 d')
                          \<and> valid_refs h1 d'"
    by auto
  show ?case
  proof (cases r1)
    case (Inl e)
    with step h1 r1 show ?thesis by simp
  next
    case (Inr d1)
    with r1 have g: "group_check (deref h d) (h ! a) = Inr (deref h1 d1)"
      and v: "valid_refs h1 d1" by simp_all
    have refs: "\<forall>a \<in> set refs. a < length h1"
      using Cons.prems(2) h1 by auto
    have same: "map (\<lambda>a. h1 ! a) refs = map (\<lambda>a. h ! a) refs"
      using Cons.prems(2) h1 by (auto simp: nth_append)
    obtain h2 r2 where rest: "group_checks_heap h1 d1 refs = (h2, r2)"
      by (cases "group_checks_heap h1 d1 refs")
    from Cons.IH [OF v refs, unfolded same] rest
    obtain ext2 where h2: "h2 = h1 @ ext2"
      and r2: "case r2 of
                 Inl e \<Rightarrow> group_checks (deref h1 d1) (map (\<lambda>a. h ! a) refs) = Inl e
               | Inr d' \<Rightarrow> group_checks (deref h1 d1) (map (\<lambda>a. h ! a) refs)
                              = Inr (deref h2 d')"
      by auto
    have ext: "\<exists>e. h2 = h @ e" by (simp add: h1 h2)
    have "group_checks (deref h d) (map (\<lambda>a. h ! a) (a # refs))
            = group_checks (deref h1 d1) (map (\<lambda>a. h ! a) refs)"
      by (simp add: g)
    with r2 ext show ?thesis
      by (cases r2) (simp_all add: step Inr rest)
  qed
qed

text \<open>
  Claim C10. \<^verbatim>\<open>calculate_category_scores\<close> does not change its input: for every
  store and every list of addresses of objects in it, each object of the store, so each
  input record, is after the call what it was before, with its \<open>passed\<close>, \<open>severity\<close>,
  \<open>explanation\<close> and \<open>category\<close>; the demotion is made on the copies, which are new
  objects. The result is that of the function on the values of the input records.
\<close>

theorem calculate_category_scores_keeps_input:
  assumes "\<forall>a \<in> set category_results. a < length h"
  shows "case calculate_category_scores_heap h category_results of
           (h', r) \<Rightarrow>
             (\<forall>a < length h. h' ! a = h ! a)
             \<and> r = calculate_category_scores (map (\<lambda>a. h ! a) category_results)"
proof -
  have v: "valid_refs h categories"
    by (simp add: valid_refs_def categories_def)
  have d0: "deref h categories = categories"
    by (simp add: deref_def categories_def)
  obtain h' r where run: "group_checks_heap h categories category_results = (h', r)"
    by (cases "group_checks_heap h categories category_results")
  from group_checks_heap_refines [OF v assms, unfolded d0] run
  obtain ext where h': "h' = h @ ext"
    and r: "case r of
              Inl e \<Rightarrow> group_checks categories (map (\<lambda>a. h ! a) category_results) = Inl e
            | Inr d' \<Rightarrow> group_checks categories (map (\<lambda>a. h ! a) category_results)
                           = Inr (deref h' d')"
    by auto
  have frame: "\<forall>a < length h. h' ! a = h ! a"
    by (simp add: h' nth_append)
  have scores: "comprehension (\<lambda>kv. Inr True)
           (\<lambda>(k, checks). case category_score (map (\<lambda>r. h' ! r) checks) of
                             Inl e \<Rightarrow> Inl e | Inr s \<Rightarrow> Inr (k, s)) d
        = comprehension (\<lambda>kv. Inr True)
           (\<lambda>(k, checks). case category_score checks of
                             Inl e \<Rightarrow> Inl e | Inr s \<Rightarrow> Inr (k, s)) (deref h' d)" for d
    by (induction d) (auto simp: deref_def split: sum.splits)
  show ?thesis
  proof (cases r)
    case (Inl e)
    with run r frame show ?thesis
      by (simp add: calculate_category_scores_heap_def calculate_category_scores_def)
  next
    case (Inr d')
    with run r frame scores [of d'] show ?thesis
      by (simp add: calculate_category_scores_heap_def calculate_category_scores_def)
  qed
qed

theorem calculate_category_scores_keeps_input_witness:
  "calculate_category_scores_heap
     [\<lparr>check_name = Some ''Repeated phrases'', passed = Some False,
       explanation = Some ''one repeated bullet'', severity = Some 2,
       category = Some ''Content''\<rparr>,
      \<lparr>check_name = Some ''Missing contact information'', passed = Some False,
       explanation = Some ''no email'', severity = Some 9, category = Some ''Content''\<rparr>]
     [0, 1]
   = ([\<lparr>check_name = Some ''Repeated phrases'', passed = Some False,
        explanation = Some ''one repeated bullet'', severity = Some 2,
        category = Some ''Content''\<rparr>,
       \<lparr>check_name = Some ''Missing contact information'', passed = Some False,
        explanation = Some ''no email'', severity = Some 9, category = Some ''Content''\<rparr>,
       \<lparr>check_name = Some ''Repeated phrases'', passed = Some True,
        explanation = Some ''one repeated bullet'', severity = Some 2,
        category = Some ''Content''\<rparr>,
       \<lparr>check_name = Some ''Missing contact information'', passed = Some False,
        explanation = Some ''no email'', severity = Some 9, category = Some ''Content''\<rparr>],
      Inr [(''Content'', 5), (''Format'', 100), (''Consistency'', 100),
           (''Relevance'', 100), (''Credibility'', 100)])
   \<and> calculate_category_scores
     [\<lparr>check_name = Some ''Repeated phrases'', passed = Some False,
       explanation = Some ''one repeated bullet'', severity = Some 2,
       category = Some ''Content''\<rparr>,
      \<lparr>check_name = Some ''Missing contact information'', passed = Some False,
       explanation = Some ''no email'', severity = Some 9, category = Some ''Content''\<rparr>]
   = Inr [(''Content'', 5), (''Format'', 100), (''Consistency'', 100),
           (''Relevance'', 100), (''Credibility'', 100)]"
proof -
  let ?h = "[\<lparr>check_name = Some ''Repeated phrases'', passed = Some False,
       explanation = Some ''one repeated bullet'', severity = Some 2,
       category = Some ''Content''\<rparr>,
      \<lparr>check_name = Some ''Missing contact information'', passed = Some False,
       explanation = Some ''no email'', severity = Some 9, category = Some ''Content''\<rparr>]"
  have run: "calculate_category_scores_heap ?h [0, 1]
   = (?h @ [\<lparr>check_name = Some ''Repeated phrases'', passed = Some True,
        explanation = Some ''one repeated bullet'', severity = Some 2,
        category = Some ''Content''\<rparr>,
       \<lparr>check_name = Some ''Missing contact information'', passed = Some False,
        explanation = Some ''no email'', severity = Some 9, category = Some ''Content''\<rparr>],
      Inr [(''Content'', 5), (''Format'', 100), (''Consistency'', 100),
           (''Relevance'', 100), (''Credibility'', 100)])"
    by code_simp
  have refs: "\<forall>a \<in> set [0, 1::nat]. a < length ?h" by simp
  from calculate_category_scores_keeps_input [OF refs] run show ?thesis
    by simp
qed

end
